theory Spec2Isabelle
  imports Complex_Main
begin

section \<open>JavaScript values used by the services\<close>

text \<open>
  A JavaScript number is kept as its exact rational value, or one of the three
  non-finite doubles. The rounding of a literal to a double is not modelled; it is the
  identity on the small integers that administrative ranks and zoom levels are.
\<close>

datatype jsnum = NaN | NegInf | Fin rat | PosInf

text \<open>\<^verbatim>\<open>a <= b\<close>: false as soon as one side is \<^verbatim>\<open>NaN\<close>.\<close>

fun js_le :: "jsnum \<Rightarrow> jsnum \<Rightarrow> bool" where
  "js_le NaN _ = False"
| "js_le _ NaN = False"
| "js_le NegInf _ = True"
| "js_le _ PosInf = True"
| "js_le (Fin a) (Fin b) = (a \<le> b)"
| "js_le (Fin a) NegInf = False"
| "js_le PosInf (Fin b) = False"
| "js_le PosInf NegInf = False"

text \<open>\<^verbatim>\<open>a !== b\<close> on numbers: \<^verbatim>\<open>NaN\<close> differs from everything, itself included.\<close>

definition js_strict_neq :: "jsnum \<Rightarrow> jsnum \<Rightarrow> bool" where
  "js_strict_neq a b = (a = NaN \<or> b = NaN \<or> a \<noteq> b)"

text \<open>Truthiness of a number: \<^verbatim>\<open>0\<close> and \<^verbatim>\<open>NaN\<close> are falsy.\<close>

definition js_truthy :: "jsnum \<Rightarrow> bool" where
  "js_truthy a = (a \<noteq> NaN \<and> a \<noteq> Fin 0)"

text \<open>\<^verbatim>\<open>a || b\<close> on numbers.\<close>

definition js_or :: "jsnum \<Rightarrow> jsnum \<Rightarrow> jsnum" where
  "js_or a b = (if js_truthy a then a else b)"

text \<open>\<^verbatim>\<open>a - b\<close>.\<close>

fun js_sub :: "jsnum \<Rightarrow> jsnum \<Rightarrow> jsnum" where
  "js_sub NaN _ = NaN"
| "js_sub _ NaN = NaN"
| "js_sub (Fin a) (Fin b) = Fin (a - b)"
| "js_sub (Fin a) NegInf = PosInf"
| "js_sub (Fin a) PosInf = NegInf"
| "js_sub NegInf NegInf = NaN"
| "js_sub NegInf _ = NegInf"
| "js_sub PosInf PosInf = NaN"
| "js_sub PosInf _ = PosInf"

text \<open>
  \<^verbatim>\<open>Array.prototype.sort(cmp)\<close>: the sort is stable, and an element moves behind
  another only when the comparator's result is greater than zero (\<^verbatim>\<open>NaN\<close> counts as
  zero). For a consistent comparator every conforming engine returns the list below.
\<close>

definition js_positive :: "jsnum \<Rightarrow> bool" where
  "js_positive v = (case v of Fin r \<Rightarrow> 0 < r | PosInf \<Rightarrow> True | _ \<Rightarrow> False)"

fun js_insert :: "('a \<Rightarrow> 'a \<Rightarrow> jsnum) \<Rightarrow> 'a \<Rightarrow> 'a list \<Rightarrow> 'a list" where
  "js_insert cmp x [] = [x]"
| "js_insert cmp x (y # ys) =
     (if js_positive (cmp x y) then y # js_insert cmp x ys else x # y # ys)"

definition js_sort :: "('a \<Rightarrow> 'a \<Rightarrow> jsnum) \<Rightarrow> 'a list \<Rightarrow> 'a list" where
  "js_sort cmp xs = foldr (js_insert cmp) xs []"

subsection \<open>\<^verbatim>\<open>Number(string)\<close> and \<^verbatim>\<open>number.toString()\<close>\<close>

text \<open>
  \<^verbatim>\<open>Number\<close> applied to a string follows the grammar of ECMAScript's
  StringNumericLiteral: surrounding white space is dropped, the empty string is
  \<^verbatim>\<open>0\<close>, a decimal literal may carry a sign, a fraction and an exponent,
  \<^verbatim>\<open>Infinity\<close> may carry a sign, and the prefixes \<^verbatim>\<open>0x\<close>, \<^verbatim>\<open>0o\<close>, \<^verbatim>\<open>0b\<close>
  introduce unsigned integers. Every other string is \<^verbatim>\<open>NaN\<close>. White space is the
  ASCII part of the language's set.
\<close>

definition is_ws :: "char \<Rightarrow> bool" where
  "is_ws c = (c \<in> set [CHR '' '', CHR 0x09, CHR 0x0A, CHR 0x0B, CHR 0x0C, CHR 0x0D])"

definition trim :: "string \<Rightarrow> string" where
  "trim s = rev (dropWhile is_ws (rev (dropWhile is_ws s)))"

definition digit_of :: "nat \<Rightarrow> char \<Rightarrow> nat option" where
  "digit_of base c =
     (let n = (of_char c :: nat);
          v = (if 48 \<le> n \<and> n \<le> 57 then Some (n - 48)
               else if 97 \<le> n \<and> n \<le> 102 then Some (n - 87)
               else if 65 \<le> n \<and> n \<le> 70 then Some (n - 55)
               else None)
      in case v of None \<Rightarrow> None | Some d \<Rightarrow> if d < base then Some d else None)"

definition is_digit :: "char \<Rightarrow> bool" where
  "is_digit c = (digit_of 10 c \<noteq> None)"

fun digits_value :: "nat \<Rightarrow> nat \<Rightarrow> string \<Rightarrow> nat option" where
  "digits_value base acc [] = Some acc"
| "digits_value base acc (c # cs) =
     (case digit_of base c of
        None \<Rightarrow> None
      | Some d \<Rightarrow> digits_value base (base * acc + d) cs)"

definition all_digits :: "nat \<Rightarrow> string \<Rightarrow> nat option" where
  "all_digits base s = (if s = [] then None else digits_value base 0 s)"

definition exponent_part :: "string \<Rightarrow> int option" where
  "exponent_part s =
     (case s of
        [] \<Rightarrow> Some 0
      | c # t \<Rightarrow>
          if c = CHR ''e'' \<or> c = CHR ''E'' then
            (case t of
               CHR ''+'' # u \<Rightarrow> map_option int (all_digits 10 u)
             | CHR ''-'' # u \<Rightarrow> map_option (\<lambda>n. - int n) (all_digits 10 u)
             | _ \<Rightarrow> map_option int (all_digits 10 t))
          else None)"

definition pow10 :: "int \<Rightarrow> rat" where
  "pow10 e = (if 0 \<le> e then 10 ^ nat e else 1 / 10 ^ nat (- e))"

definition unsigned_decimal :: "string \<Rightarrow> jsnum" where
  "unsigned_decimal s =
     (if s = ''Infinity'' then PosInf
      else
        let ip = takeWhile is_digit s;
            r1 = dropWhile is_digit s;
            fp = (case r1 of CHR ''.'' # t \<Rightarrow> takeWhile is_digit t | _ \<Rightarrow> []);
            r2 = (case r1 of CHR ''.'' # t \<Rightarrow> dropWhile is_digit t | _ \<Rightarrow> r1)
        in if ip = [] \<and> fp = [] then NaN
           else
             (case (digits_value 10 0 ip, digits_value 10 0 fp, exponent_part r2) of
                (Some i, Some f, Some e) \<Rightarrow>
                  Fin ((of_nat i + of_nat f / 10 ^ length fp) * pow10 e)
              | _ \<Rightarrow> NaN))"

definition js_neg :: "jsnum \<Rightarrow> jsnum" where
  "js_neg v = (case v of NaN \<Rightarrow> NaN | NegInf \<Rightarrow> PosInf | PosInf \<Rightarrow> NegInf | Fin r \<Rightarrow> Fin (- r))"

definition prefixed_integer :: "nat \<Rightarrow> string \<Rightarrow> jsnum" where
  "prefixed_integer base s =
     (case all_digits base s of None \<Rightarrow> NaN | Some n \<Rightarrow> Fin (of_nat n))"

definition Number_of_string :: "string \<Rightarrow> jsnum" where
  "Number_of_string s0 =
     (let s = trim s0
      in case s of
           [] \<Rightarrow> Fin 0
         | CHR ''+'' # t \<Rightarrow> unsigned_decimal t
         | CHR ''-'' # t \<Rightarrow> js_neg (unsigned_decimal t)
         | CHR ''0'' # p # t \<Rightarrow>
             if p = CHR ''x'' \<or> p = CHR ''X'' then prefixed_integer 16 t
             else if p = CHR ''o'' \<or> p = CHR ''O'' then prefixed_integer 8 t
             else if p = CHR ''b'' \<or> p = CHR ''B'' then prefixed_integer 2 t
             else unsigned_decimal s
         | _ \<Rightarrow> unsigned_decimal s)"

text \<open>\<^verbatim>\<open>Number(v)\<close> for a tag that may be absent: \<^verbatim>\<open>Number(undefined)\<close> is \<^verbatim>\<open>NaN\<close>.\<close>

definition Number_js :: "string option \<Rightarrow> jsnum" where
  "Number_js v = (case v of None \<Rightarrow> NaN | Some s \<Rightarrow> Number_of_string s)"

text \<open>
  \<^verbatim>\<open>toString()\<close> of an integer-valued number (an OpenStreetMap node id): all its
  decimal digits, as JavaScript prints an integer below \<^verbatim>\<open>1e21\<close>.
\<close>

fun toString_digits :: "nat \<Rightarrow> nat \<Rightarrow> string" where
  "toString_digits 0 n = []"
| "toString_digits (Suc fuel) n =
     (if n < 10 then [char_of (48 + n)]
      else toString_digits fuel (n div 10) @ [char_of (48 + n mod 10)])"

definition toString_nat :: "nat \<Rightarrow> string" where
  "toString_nat n = toString_digits (Suc n) n"

definition toString_int :: "int \<Rightarrow> string" where
  "toString_int i = (if i < 0 then CHR ''-'' # toString_nat (nat (- i)) else toString_nat (nat i))"

section \<open>Places and the Overpass reply\<close>

text \<open>
  \<^verbatim>\<open>WeatherLocation\<close>, \<^verbatim>\<open>OverpassElement\<close> and its tags, as the interfaces declare
  them; an optional property is an \<open>option\<close>. Coordinates are JSON numbers.
\<close>

record WeatherLocation =
  loc_id :: string
  name :: string
  name_es :: "string option"
  name_en :: "string option"
  latitude :: rat
  longitude :: rat
  capital :: jsnum
  place :: "string option"

record OverpassTags =
  tag_name :: "string option"
  tag_name_es :: "string option"
  tag_name_en :: "string option"
  tag_place :: "string option"
  tag_capital :: "string option"

record OverpassCenter =
  center_lat :: rat
  center_lon :: rat

record OverpassElement =
  el_id :: int
  el_tags :: "OverpassTags option"
  el_lat :: "rat option"
  el_lon :: "rat option"
  el_center :: "OverpassCenter option"

text \<open>\<^verbatim>\<open>element?.tags?.p\<close>: the tag, when the element has tags and the tag is there.\<close>

definition tag_of :: "(OverpassTags \<Rightarrow> string option) \<Rightarrow> OverpassElement \<Rightarrow> string option" where
  "tag_of p e = (case el_tags e of None \<Rightarrow> None | Some t \<Rightarrow> p t)"

text \<open>Truthiness of an optional string: absent and empty are falsy.\<close>

definition str_truthy :: "string option \<Rightarrow> bool" where
  "str_truthy v = (case v of None \<Rightarrow> False | Some s \<Rightarrow> s \<noteq> [])"

text \<open>\<^verbatim>\<open>v || d\<close> for an optional string and a string default.\<close>

definition str_or :: "string option \<Rightarrow> string \<Rightarrow> string" where
  "str_or v d = (case v of None \<Rightarrow> d | Some s \<Rightarrow> if s \<noteq> [] then s else d)"

text \<open>\<^verbatim>\<open>element.lat || (element.center ? element.center.lat : 0)\<close>, and the same for \<^verbatim>\<open>lon\<close>.\<close>

definition coord_or_center :: "rat option \<Rightarrow> rat option \<Rightarrow> rat" where
  "coord_or_center v c =
     (case v of
        Some x \<Rightarrow> if x \<noteq> 0 then x else (case c of Some y \<Rightarrow> y | None \<Rightarrow> 0)
      | None \<Rightarrow> (case c of Some y \<Rightarrow> y | None \<Rightarrow> 0))"

text \<open>The object literal of the \<^verbatim>\<open>map\<close> callback in \<^verbatim>\<open>fetchLocationsFromOverpass\<close>.\<close>

definition toLocation :: "OverpassElement \<Rightarrow> WeatherLocation" where
  "toLocation e =
     \<lparr> loc_id = toString_int (el_id e),
       name = str_or (tag_of tag_name e) ''Unknown'',
       name_es = tag_of tag_name_es e,
       name_en = tag_of tag_name_en e,
       latitude = coord_or_center (el_lat e) (map_option center_lat (el_center e)),
       longitude = coord_or_center (el_lon e) (map_option center_lon (el_center e)),
       capital = (if tag_of tag_capital e = Some ''yes'' then Fin 1
                  else Number_js (tag_of tag_capital e)),
       place = Some (str_or (tag_of tag_place e) []) \<rparr>"

text \<open>The second \<^verbatim>\<open>filter\<close> callback; \<open>zoom\<close> is \<^verbatim>\<open>this.currentZoomLevel\<close>.\<close>

definition keepLocation :: "jsnum \<Rightarrow> WeatherLocation \<Rightarrow> bool" where
  "keepLocation zoom l =
     (latitude l \<noteq> 0 \<and> longitude l \<noteq> 0 \<and> name l \<noteq> ''Unknown''
      \<and> js_le (capital l) (js_or zoom (Fin 9)))"

text \<open>The \<^verbatim>\<open>sort\<close> comparator.\<close>

definition byCapital :: "WeatherLocation \<Rightarrow> WeatherLocation \<Rightarrow> jsnum" where
  "byCapital a b = js_sub (capital a) (capital b)"

text \<open>The chain \<^verbatim>\<open>filter(...).map(...).filter(...).sort(...)\<close> over \<^verbatim>\<open>data.elements\<close>.\<close>

definition allLocations :: "jsnum \<Rightarrow> OverpassElement list \<Rightarrow> WeatherLocation list" where
  "allLocations zoom elements =
     js_sort byCapital
       (filter (keepLocation zoom)
          (map toLocation (filter (\<lambda>e. str_truthy (tag_of tag_place e)) elements)))"

text \<open>
  What the \<^verbatim>\<open>fetch\<close> of the Overpass URL comes back with: a rejected request, a
  response whose \<^verbatim>\<open>ok\<close> is false, a body that is not JSON, or the parsed body with its
  \<^verbatim>\<open>elements\<close> array (\<open>None\<close> when the body has no such array).
\<close>

datatype js_error = NetworkError string | HttpError nat | SyntaxError

datatype overpass_reply =
    FetchRejected string
  | NotOk nat
  | BodyNotJson
  | Body "OverpassElement list option"

text \<open>
  What the observable returned by \<^verbatim>\<open>fetchLocationsFromOverpass\<close> delivers to its
  subscriber: \<open>Inl\<close> is \<^verbatim>\<open>observer.error\<close>, \<open>Inr\<close> is \<^verbatim>\<open>observer.next\<close>. The
  arguments are \<^verbatim>\<open>isPlatformBrowser(this.platformId)\<close>, \<^verbatim>\<open>this.currentZoomLevel\<close> and
  the reply.
\<close>

definition fetchLocationsFromOverpass ::
  "bool \<Rightarrow> jsnum \<Rightarrow> overpass_reply \<Rightarrow> js_error + WeatherLocation list" where
  "fetchLocationsFromOverpass isBrowser zoom reply =
     (if \<not> isBrowser then Inr []
      else case reply of
             FetchRejected msg \<Rightarrow> Inl (NetworkError msg)
           | NotOk status \<Rightarrow> Inl (HttpError status)
           | BodyNotJson \<Rightarrow> Inl SyntaxError
           | Body None \<Rightarrow> Inr []
           | Body (Some elements) \<Rightarrow> Inr (allLocations zoom elements))"

section \<open>The weather service\<close>

record TemperatureRange =
  temp_min :: "rat option"
  temp_max :: "rat option"

record WeatherForecast =
  fc_date :: string
  fc_temperature :: TemperatureRange
  fc_description :: string
  fc_icon :: string

record WeatherData =
  location :: WeatherLocation
  temperature :: rat
  description :: string
  humidity :: "rat option"
  windSpeed :: rat
  precipitation :: "rat option"
  date :: string
  icon :: string
  forecast :: "WeatherForecast list"

text \<open>
  The part of the Open-Meteo response the service reads. A number read from an array
  past its end is \<^verbatim>\<open>undefined\<close>, which is \<open>None\<close> here.
\<close>

record CurrentWeather =
  cw_temperature :: rat
  cw_windspeed :: rat
  cw_weathercode :: int
  cw_time :: string

record DailyWeather =
  daily_time :: "string list"
  daily_weathercode :: "int list"
  daily_temperature_2m_max :: "rat list"
  daily_temperature_2m_min :: "rat list"

record HourlyWeather =
  hourly_time :: "string list"
  hourly_relativehumidity_2m :: "rat list"
  hourly_precipitation :: "rat list"

record OpenMeteoResponse =
  current_weather :: CurrentWeather
  daily :: DailyWeather
  hourly :: HourlyWeather

text \<open>
  \<^verbatim>\<open>Date\<close>: what \<^verbatim>\<open>getHours()\<close> and \<^verbatim>\<open>getDate()\<close> answer. The clock holds
  \<^verbatim>\<open>new Date()\<close> and what \<^verbatim>\<open>new Date(time)\<close> reads from a time stamp of the response
  (\<open>None\<close> for an invalid date, whose parts equal nothing).
\<close>

record JsDate =
  getHours :: nat
  getDate :: nat

record Clock =
  now :: JsDate
  dateOf :: "string \<Rightarrow> JsDate option"

definition elem_at :: "'a list \<Rightarrow> nat \<Rightarrow> 'a option" where
  "elem_at xs i = (if i < length xs then Some (xs ! i) else None)"

fun findIndex :: "('a \<Rightarrow> bool) \<Rightarrow> 'a list \<Rightarrow> nat option" where
  "findIndex P [] = None"
| "findIndex P (x # xs) = (if P x then Some 0 else map_option Suc (findIndex P xs))"

definition getWeatherDescription :: "int option \<Rightarrow> string" where
  "getWeatherDescription weatherCode =
     (case weatherCode of
        None \<Rightarrow> ''Desconocido''
      | Some c \<Rightarrow>
          if c = 0 then ''Soleado''
          else if c = 1 \<or> c = 2 then ''Parcialmente nublado''
          else if c = 3 then ''Nublado''
          else if c = 45 \<or> c = 48 then ''Niebla''
          else if c = 51 \<or> c = 53 \<or> c = 55 then ''Llovizna''
          else if c = 61 \<or> c = 63 then ''Lluvia ligera''
          else if c = 65 then ''Lluvia intensa''
          else if c = 71 \<or> c = 73 \<or> c = 75 then ''Nieve''
          else if c = 80 \<or> c = 81 \<or> c = 82 then ''Lluvia intensa''
          else if c = 95 \<or> c = 96 \<or> c = 99 then ''Tormenta''
          else ''Desconocido'')"

definition getWeatherIcon :: "string \<Rightarrow> string" where
  "getWeatherIcon d =
     (if d = ''Soleado'' then ''sun''
      else if d = ''Parcialmente nublado'' then ''cloud-sun''
      else if d = ''Nublado'' then ''cloud''
      else if d = ''Niebla'' then ''foggy''
      else if d = ''Llovizna'' then ''cloud-sun-rain''
      else if d = ''Lluvia ligera'' then ''cloud-rain''
      else if d = ''Lluvia intensa'' then ''cloud-showers-heavy''
      else if d = ''Tormenta'' then ''bolt''
      else if d = ''Nieve'' then ''snowflake''
      else ''question'')"

text \<open>The loop of \<^verbatim>\<open>mapOpenMeteoForecast\<close>: \<^verbatim>\<open>i\<close> from 1 below \<^verbatim>\<open>min(6, time.length)\<close>.\<close>

definition mapOpenMeteoForecast :: "OpenMeteoResponse \<Rightarrow> WeatherForecast list" where
  "mapOpenMeteoForecast response =
     map (\<lambda>i.
            \<lparr> fc_date = daily_time (daily response) ! i,
              fc_temperature =
                \<lparr> temp_min = elem_at (daily_temperature_2m_min (daily response)) i,
                  temp_max = elem_at (daily_temperature_2m_max (daily response)) i \<rparr>,
              fc_description = getWeatherDescription (elem_at (daily_weathercode (daily response)) i),
              fc_icon =
                getWeatherIcon (getWeatherDescription (elem_at (daily_weathercode (daily response)) i)) \<rparr>)
         [1 ..< min 6 (length (daily_time (daily response)))]"

text \<open>The \<^verbatim>\<open>map\<close> callback of \<^verbatim>\<open>getOpenMeteoWeatherData\<close>.\<close>

definition toWeatherData :: "Clock \<Rightarrow> WeatherLocation \<Rightarrow> OpenMeteoResponse \<Rightarrow> WeatherData" where
  "toWeatherData clock loc response =
     (let currentHourIndex =
            findIndex
              (\<lambda>t. case dateOf clock t of
                     None \<Rightarrow> False
                   | Some d \<Rightarrow> getHours d = getHours (now clock) \<and> getDate d = getDate (now clock))
              (hourly_time (hourly response))
      in \<lparr> location = loc,
           temperature = cw_temperature (current_weather response),
           description = getWeatherDescription (Some (cw_weathercode (current_weather response))),
           humidity =
             (case currentHourIndex of
                Some i \<Rightarrow> elem_at (hourly_relativehumidity_2m (hourly response)) i
              | None \<Rightarrow> Some 0),
           windSpeed = cw_windspeed (current_weather response),
           precipitation =
             (case currentHourIndex of
                Some i \<Rightarrow> elem_at (hourly_precipitation (hourly response)) i
              | None \<Rightarrow> Some 0),
           date = cw_time (current_weather response),
           icon =
             getWeatherIcon
               (getWeatherDescription (Some (cw_weathercode (current_weather response)))),
           forecast = mapOpenMeteoForecast response \<rparr>)"

text \<open>
  The state of \<^verbatim>\<open>WeatherService\<close>: its fields, and the two collaborators it writes to,
  each as the list of what it received: the GET requests handed to \<^verbatim>\<open>HttpClient\<close> (by
  the place asked for) and the errors passed to \<^verbatim>\<open>console.error\<close>.
\<close>

record WeatherService =
  isBrowser :: bool
  weatherCache :: "string \<rightharpoonup> WeatherData"
  currentWeather :: "WeatherData option"
  httpRequests :: "WeatherLocation list"
  consoleErrors :: "js_error list"

text \<open>How the GET request ends.\<close>

datatype http_outcome = HttpFails js_error | HttpReturns OpenMeteoResponse

text \<open>
  \<^verbatim>\<open>getWeatherForLocation\<close> in two steps, as the subscriber sees it. Subscribing
  either delivers a value at once (\<^verbatim>\<open>of(null)\<close> outside a browser, \<^verbatim>\<open>of(cachedData)\<close> on a
  cache hit) or sends the request and leaves the subscription waiting.
\<close>

datatype subscription = Delivered "WeatherData option" | Waiting

definition getWeatherForLocation_subscribe ::
  "WeatherLocation \<Rightarrow> WeatherService \<Rightarrow> subscription \<times> WeatherService" where
  "getWeatherForLocation_subscribe loc ws =
     (if \<not> isBrowser ws then (Delivered None, ws)
      else case weatherCache ws (loc_id loc) of
             Some cachedData \<Rightarrow>
               (Delivered (Some cachedData), ws\<lparr>currentWeather := Some cachedData\<rparr>)
           | None \<Rightarrow> (Waiting, ws\<lparr>httpRequests := httpRequests ws @ [loc]\<rparr>))"

text \<open>
  When the request ends, \<^verbatim>\<open>tap\<close> stores a response and \<^verbatim>\<open>catchError\<close> turns a failure
  into \<^verbatim>\<open>null\<close>. The result is what the subscriber receives: \<open>Inr\<close> for \<^verbatim>\<open>next\<close>,
  \<open>Inl\<close> for \<^verbatim>\<open>error\<close>.
\<close>

definition getWeatherForLocation_complete ::
  "Clock \<Rightarrow> http_outcome \<Rightarrow> WeatherLocation \<Rightarrow> WeatherService
     \<Rightarrow> (js_error + WeatherData option) \<times> WeatherService" where
  "getWeatherForLocation_complete clock outcome loc ws =
     (case outcome of
        HttpReturns response \<Rightarrow>
          (let data = toWeatherData clock loc response
           in (Inr (Some data),
               ws\<lparr>weatherCache := (weatherCache ws)(loc_id loc \<mapsto> data),
                  currentWeather := Some data\<rparr>))
      | HttpFails err \<Rightarrow> (Inr None, ws\<lparr>consoleErrors := consoleErrors ws @ [err]\<rparr>))"

text \<open>
  A call whose caller subscribes and waits for the value; \<open>outcome\<close> is how the request
  ends if one is sent.
\<close>

definition getWeatherForLocation ::
  "Clock \<Rightarrow> http_outcome \<Rightarrow> WeatherLocation \<Rightarrow> WeatherService
     \<Rightarrow> (js_error + WeatherData option) \<times> WeatherService" where
  "getWeatherForLocation clock outcome loc ws =
     (case getWeatherForLocation_subscribe loc ws of
        (Delivered v, ws') \<Rightarrow> (Inr v, ws')
      | (Waiting, ws') \<Rightarrow> getWeatherForLocation_complete clock outcome loc ws')"

section \<open>The map service\<close>

text \<open>
  The Leaflet module object, as far as the service looks at it: which object it is, and
  its \<^verbatim>\<open>Map\<close> property as the two checks of the source see it (\<^verbatim>\<open>!leaflet.Map\<close> tests
  for a falsy value, \<^verbatim>\<open>typeof window.L.Map === 'function'\<close> for a function).
\<close>

datatype js_prop = Missing | NotCallable | Callable

record Leaflet =
  module_id :: nat
  Map_ctor :: js_prop

record LatLngBounds =
  north :: rat
  south :: rat
  east :: rat
  west :: rat

record BoundsEvent = LatLngBounds +
  isZoomChange :: bool

text \<open>The Leaflet map object: what \<^verbatim>\<open>getZoom()\<close> and \<^verbatim>\<open>getBounds()\<close> answer now.\<close>

record LeafletMap =
  getZoom :: jsnum
  getBounds :: "LatLngBounds option"

text \<open>
  A marker object: \<open>lat\<close> and \<open>lng\<close> are \<^verbatim>\<open>getLatLng()\<close>, \<open>markerData\<close> is
  the weather data its popup and click handler hold, and \<open>marker_ref\<close> tells objects
  apart that were created with the same data: two markers are the same object when
  they are equal as records.
\<close>

record Marker =
  marker_ref :: nat
  lat :: rat
  lng :: rat
  markerData :: WeatherData

text \<open>
  The fields of \<^verbatim>\<open>MapService\<close>. \<open>platformBrowser\<close> is
  \<^verbatim>\<open>isPlatformBrowser(this.platformId)\<close>. A layer group is the list of the markers it
  holds. A promise is kept as the value it resolves to. \<open>mapMoveSubject\<close> is the list of
  the values passed to \<^verbatim>\<open>next\<close>. Three fields belong to the runtime rather than to
  the class: \<open>waiting\<close>, the places whose weather subscription has not delivered yet;
  \<open>nextRef\<close>, the reference the next marker object gets; and \<open>moveSubscribed\<close>,
  whether the subscription the constructor makes to the debounced \<^verbatim>\<open>mapMoveSubject\<close>
  pipeline still exists (it is made only in a browser, and an error notification ends it).
\<close>

record MapService =
  platformBrowser :: bool
  L :: "Leaflet option"
  leafletLoadPromise :: "Leaflet option option"
  loadAttempts :: nat
  map_handle :: "LeafletMap option"
  markers :: "Marker list"
  markersLayer :: "Marker list option"
  markerClusterGroup :: "Marker list option"
  weatherService :: WeatherService
  markerLocationIds :: "string set"
  markerToLocationId :: "Marker \<rightharpoonup> string"
  markersAddedDuringInit :: bool
  isInitializing :: bool
  mapMoveSubject :: "BoundsEvent list"
  currentZoomLevel :: jsnum
  waiting :: "WeatherLocation list"
  nextRef :: nat
  moveSubscribed :: bool

definition MAX_LOAD_ATTEMPTS :: nat where
  "MAX_LOAD_ATTEMPTS = 3"

subsection \<open>Loading Leaflet\<close>

text \<open>
  What lies outside the service: the \<^verbatim>\<open>window\<close> object and its \<^verbatim>\<open>L\<close> property, and
  a record of what the loader did: the attempt numbers it announced, the delays it
  waited for, and how many times it called \<^verbatim>\<open>import('leaflet')\<close>.
\<close>

record Runtime =
  window_defined :: bool
  window_L :: "Leaflet option"
  attempts_started :: "nat list"
  delays :: "nat list"
  imports_done :: nat

text \<open>
  How one \<^verbatim>\<open>import('leaflet')\<close> ends: rejected, or resolved to a module object whose
  \<^verbatim>\<open>Map\<close> property is read twice, before and after the 200 ms delay.
\<close>

datatype import_outcome = ImportRejected js_error | Imported nat js_prop js_prop

datatype attempt_result = Settled "Leaflet option" | Failed

text \<open>\<^verbatim>\<open>window.L && typeof window.L.Map === 'function'\<close>.\<close>

definition window_L_usable :: "Runtime \<Rightarrow> bool" where
  "window_L_usable rt = (case window_L rt of None \<Rightarrow> False | Some w \<Rightarrow> Map_ctor w = Callable)"

text \<open>
  One run of the body of \<^verbatim>\<open>loadLeaflet\<close> inside a browser, up to the point where it
  returns a value (\<open>Settled\<close>) or reaches one of the three places that retry
  (\<open>Failed\<close>). \<open>imp k\<close> is how the import ends that follows \<open>k\<close> earlier ones.
\<close>

definition loadLeaflet_attempt ::
  "(nat \<Rightarrow> import_outcome) \<Rightarrow> Runtime \<Rightarrow> MapService \<Rightarrow> attempt_result \<times> Runtime \<times> MapService" where
  "loadLeaflet_attempt imp rt s =
     (let n = loadAttempts s + 1;
          s1 = s\<lparr>loadAttempts := n\<rparr>;
          rt1 = rt\<lparr>attempts_started := attempts_started rt @ [n],
                   delays := delays rt @ (if 1 < n then [500 * n] else [])\<rparr>
      in if \<not> window_defined rt1 then (Settled None, rt1, s1)
         else if window_L_usable rt1 then (Settled (window_L rt1), rt1, s1\<lparr>L := window_L rt1\<rparr>)
         else
           let rt2 = rt1\<lparr>imports_done := imports_done rt1 + 1\<rparr>
           in case imp (imports_done rt1) of
                ImportRejected err \<Rightarrow> (Failed, rt2, s1)
              | Imported i first second \<Rightarrow>
                  if first = Missing then (Failed, rt2, s1)
                  else
                    let rt3 = rt2\<lparr>delays := delays rt2 @ [200]\<rparr>;
                        leaflet = \<lparr>module_id = i, Map_ctor = second\<rparr>
                    in if second = Missing then (Failed, rt3, s1)
                       else (Settled (Some leaflet), rt3\<lparr>window_L := Some leaflet\<rparr>,
                             s1\<lparr>L := Some leaflet\<rparr>))"

lemma loadLeaflet_attempt_counts:
  "loadLeaflet_attempt imp rt s = (r, rt', s') \<Longrightarrow> loadAttempts s' = loadAttempts s + 1"
  by (auto simp: loadLeaflet_attempt_def Let_def split: if_splits import_outcome.splits)

function loadLeaflet ::
  "(nat \<Rightarrow> import_outcome) \<Rightarrow> Runtime \<Rightarrow> MapService \<Rightarrow> Leaflet option \<times> Runtime \<times> MapService" where
  "loadLeaflet imp rt s =
     (if \<not> platformBrowser s then (None, rt, s)
      else case loadLeaflet_attempt imp rt s of
             (Settled r, rt', s') \<Rightarrow> (r, rt', s')
           | (Failed, rt', s') \<Rightarrow>
               if loadAttempts s' < MAX_LOAD_ATTEMPTS then loadLeaflet imp rt' s'
               else (None, rt', s'))"
  by pat_completeness auto
termination
proof (relation "measure (\<lambda>(imp, rt, s). MAX_LOAD_ATTEMPTS - loadAttempts s)")
  show "wf (measure (\<lambda>(imp, rt, s). MAX_LOAD_ATTEMPTS - loadAttempts s))"
    by simp
next
  fix imp :: "nat \<Rightarrow> import_outcome" and rt s x rt1 y s1
  assume "(x, y) = loadLeaflet_attempt imp rt s" and "(rt1, s1) = y"
    and "loadAttempts s1 < MAX_LOAD_ATTEMPTS"
  then have "loadAttempts s1 = loadAttempts s + 1"
    using loadLeaflet_attempt_counts [of imp rt s x rt1 s1] by simp
  with \<open>loadAttempts s1 < MAX_LOAD_ATTEMPTS\<close>
  show "((imp, rt1, s1), (imp, rt, s)) \<in> measure (\<lambda>(imp, rt, s). MAX_LOAD_ATTEMPTS - loadAttempts s)"
    by simp
qed

declare loadLeaflet.simps [simp del]

text \<open>\<^verbatim>\<open>getLeaflet(forceReload)\<close>; the value is what the returned promise resolves to.\<close>

definition getLeaflet ::
  "(nat \<Rightarrow> import_outcome) \<Rightarrow> bool \<Rightarrow> Runtime \<Rightarrow> MapService \<Rightarrow> Leaflet option \<times> Runtime \<times> MapService" where
  "getLeaflet imp forceReload rt s =
     (if \<not> platformBrowser s then (None, rt, s)
      else if forceReload then
        (case loadLeaflet imp rt (s\<lparr>L := None, loadAttempts := 0\<rparr>) of
           (r, rt', s') \<Rightarrow> (r, rt', s'\<lparr>leafletLoadPromise := Some r\<rparr>))
      else (case leafletLoadPromise s of Some r \<Rightarrow> r | None \<Rightarrow> L s, rt, s))"

text \<open>\<^verbatim>\<open>ensureLeafletLoaded()\<close>.\<close>

definition ensureLeafletLoaded ::
  "(nat \<Rightarrow> import_outcome) \<Rightarrow> Runtime \<Rightarrow> MapService \<Rightarrow> Leaflet option \<times> Runtime \<times> MapService" where
  "ensureLeafletLoaded imp rt s =
     (if \<not> platformBrowser s then (None, rt, s)
      else case getLeaflet imp False rt s of
             (leaflet, rt1, s1) \<Rightarrow>
               if (case leaflet of None \<Rightarrow> True | Some l \<Rightarrow> Map_ctor l = Missing) then
                 (case loadLeaflet imp rt1 (s1\<lparr>L := None, loadAttempts := 0\<rparr>) of
                    (r, rt', s') \<Rightarrow> (r, rt', s'\<lparr>leafletLoadPromise := Some r\<rparr>))
               else (leaflet, rt1, s1))"

subsection \<open>Markers\<close>

text \<open>
  Leaflet's own calls (constructing a marker, adding and removing layers) are taken to
  succeed, so the \<^verbatim>\<open>catch\<close> branches around them are not entered.
\<close>

text \<open>\<^verbatim>\<open>createWeatherMarker\<close>: the new marker goes to the cluster group when there is
  one, else to the markers layer, and is pushed onto \<^verbatim>\<open>this.markers\<close>.\<close>

definition createWeatherMarker :: "WeatherData \<Rightarrow> MapService \<Rightarrow> Marker option \<times> MapService" where
  "createWeatherMarker weatherData s =
     (if map_handle s = None \<or> L s = None then (None, s)
      else
        let marker = \<lparr> marker_ref = nextRef s,
                       lat = latitude (location weatherData),
                       lng = longitude (location weatherData),
                       markerData = weatherData \<rparr>;
            s1 = (case markerClusterGroup s of
                    Some g \<Rightarrow> s\<lparr>markerClusterGroup := Some (g @ [marker])\<rparr>
                  | None \<Rightarrow>
                      (case markersLayer s of
                         Some l \<Rightarrow> s\<lparr>markersLayer := Some (l @ [marker])\<rparr>
                       | None \<Rightarrow> s))
        in (Some marker, s1\<lparr>markers := markers s1 @ [marker], nextRef := nextRef s1 + 1\<rparr>))"

text \<open>The \<^verbatim>\<open>next\<close> callback that \<^verbatim>\<open>addMarkersForLocations\<close> subscribes for a place.\<close>

definition weatherNext :: "WeatherLocation \<Rightarrow> WeatherData option \<Rightarrow> MapService \<Rightarrow> MapService" where
  "weatherNext loc weatherData s =
     (case weatherData of
        None \<Rightarrow> s
      | Some wd \<Rightarrow>
          (case createWeatherMarker wd s of
             (None, s') \<Rightarrow> s'
           | (Some marker, s') \<Rightarrow>
               s'\<lparr>markerLocationIds := insert (loc_id loc) (markerLocationIds s'),
                  markerToLocationId := (markerToLocationId s')(marker \<mapsto> loc_id loc)\<rparr>))"

text \<open>
  The body of the \<^verbatim>\<open>forEach\<close> in \<^verbatim>\<open>addMarkersForLocations\<close>: a place whose id is in
  \<^verbatim>\<open>markerLocationIds\<close> is skipped; for any other the weather is subscribed to, and
  the callback runs at once if the value is delivered at once.
\<close>

definition addMarkerFor :: "WeatherLocation \<Rightarrow> MapService \<Rightarrow> MapService" where
  "addMarkerFor loc s =
     (if loc_id loc \<in> markerLocationIds s then s
      else case getWeatherForLocation_subscribe loc (weatherService s) of
             (Delivered v, ws') \<Rightarrow> weatherNext loc v (s\<lparr>weatherService := ws'\<rparr>)
           | (Waiting, ws') \<Rightarrow> s\<lparr>weatherService := ws', waiting := waiting s @ [loc]\<rparr>)"

definition addMarkersForLocations :: "WeatherLocation list \<Rightarrow> MapService \<Rightarrow> MapService" where
  "addMarkersForLocations locations s =
     (if map_handle s = None \<or> L s = None \<or> markersLayer s = None then s
      else fold addMarkerFor locations s)"

text \<open>
  The request of the \<open>k\<close>-th waiting subscription ends: the weather service completes
  the call and the subscriber's callback runs. Any waiting subscription may be the next
  to end, so replies can arrive in any order.
\<close>

definition weatherArrives :: "nat \<Rightarrow> Clock \<Rightarrow> http_outcome \<Rightarrow> MapService \<Rightarrow> MapService" where
  "weatherArrives k clock outcome s =
     (if k < length (waiting s) then
        let loc = waiting s ! k;
            s1 = s\<lparr>waiting := take k (waiting s) @ drop (Suc k) (waiting s)\<rparr>
        in case getWeatherForLocation_complete clock outcome loc (weatherService s1) of
             (Inr v, ws') \<Rightarrow> weatherNext loc v (s1\<lparr>weatherService := ws'\<rparr>)
           | (Inl err, ws') \<Rightarrow> s1\<lparr>weatherService := ws'\<rparr>
      else s)"

fun weatherArrivals :: "(nat \<times> Clock \<times> http_outcome) list \<Rightarrow> MapService \<Rightarrow> MapService" where
  "weatherArrivals [] s = s"
| "weatherArrivals ((k, clock, outcome) # rest) s =
     weatherArrivals rest (weatherArrives k clock outcome s)"

text \<open>\<^verbatim>\<open>clearAllMarkersInternal\<close>.\<close>

definition clearAllMarkersInternal :: "MapService \<Rightarrow> MapService" where
  "clearAllMarkersInternal s =
     s\<lparr>markers := [],
       markersLayer := map_option (\<lambda>l. []) (markersLayer s),
       markerClusterGroup := map_option (\<lambda>g. []) (markerClusterGroup s),
       markerLocationIds := {},
       markerToLocationId := Map.empty\<rparr>"

text \<open>\<^verbatim>\<open>bounds.contains(marker.getLatLng())\<close>: Leaflet's test includes the border.\<close>

definition contains :: "LatLngBounds \<Rightarrow> Marker \<Rightarrow> bool" where
  "contains b m = (south b \<le> lat m \<and> lat m \<le> north b \<and> west b \<le> lng m \<and> lng m \<le> east b)"

text \<open>
  \<^verbatim>\<open>group.removeLayer(marker)\<close> takes the marker out of the group;
  \<^verbatim>\<open>indexOf\<close> followed by \<^verbatim>\<open>splice(index, 1)\<close> takes its first occurrence out of
  the array.
\<close>

definition removeLayer :: "Marker \<Rightarrow> Marker list \<Rightarrow> Marker list" where
  "removeLayer m g = filter (\<lambda>x. x \<noteq> m) g"

definition spliceOut :: "Marker \<Rightarrow> Marker list \<Rightarrow> Marker list" where
  "spliceOut m xs = remove1 m xs"

text \<open>The body of \<^verbatim>\<open>markersToRemove.forEach\<close> in \<^verbatim>\<open>clearMarkers(false)\<close>.\<close>

definition removeMarker :: "Marker \<Rightarrow> MapService \<Rightarrow> MapService" where
  "removeMarker m s =
     (let s1 = (case markerClusterGroup s of
                  Some g \<Rightarrow> s\<lparr>markerClusterGroup := Some (removeLayer m g)\<rparr>
                | None \<Rightarrow>
                    (case markersLayer s of
                       Some l \<Rightarrow> s\<lparr>markersLayer := Some (removeLayer m l)\<rparr>
                     | None \<Rightarrow> s));
          s2 = s1\<lparr>markers := spliceOut m (markers s1)\<rparr>
      in case markerToLocationId s2 m of
           None \<Rightarrow> s2
         | Some locationId \<Rightarrow>
             if locationId = [] then s2
             else s2\<lparr>markerLocationIds := markerLocationIds s2 - {locationId},
                     markerToLocationId := (markerToLocationId s2)(m := None)\<rparr>)"

text \<open>\<^verbatim>\<open>clearMarkers(clearAll)\<close>.\<close>

definition clearMarkers :: "bool \<Rightarrow> MapService \<Rightarrow> MapService" where
  "clearMarkers clearAll s =
     (if clearAll then
        (clearAllMarkersInternal s)\<lparr>markersAddedDuringInit := False, isInitializing := False\<rparr>
      else case map_handle s of
             None \<Rightarrow> s
           | Some mp \<Rightarrow>
               (case getBounds mp of
                  None \<Rightarrow> s
                | Some bounds \<Rightarrow>
                    fold removeMarker (filter (\<lambda>m. \<not> contains bounds m) (markers s)) s))"

subsection \<open>The debounced pipeline and the map's notifications\<close>

text \<open>
  The constructor's pipeline, for one value that \<^verbatim>\<open>debounceTime\<close> lets through:
  \<open>onMapMove\<close> is the function given to \<^verbatim>\<open>switchMap\<close> up to the point where it returns
  the observable of the Overpass query, and \<open>onLocations\<close> is the subscriber: its
  \<^verbatim>\<open>next\<close> callback adds the markers; an error of the query passes through
  \<^verbatim>\<open>switchMap\<close> to its \<^verbatim>\<open>error\<close> callback, which only logs, and the error ends the
  subscription. \<open>reconcile\<close> is one value passing through the pipeline with the reply
  its query gets: nothing runs once the subscription has ended.
\<close>

definition onMapMove :: "BoundsEvent \<Rightarrow> MapService \<Rightarrow> MapService" where
  "onMapMove bounds s = (if isZoomChange bounds then clearMarkers True s else clearMarkers False s)"

definition onLocations :: "js_error + WeatherLocation list \<Rightarrow> MapService \<Rightarrow> MapService" where
  "onLocations r s =
     (case r of
        Inr locations \<Rightarrow> addMarkersForLocations locations s
      | Inl err \<Rightarrow> s\<lparr>moveSubscribed := False\<rparr>)"

definition reconcile :: "BoundsEvent \<Rightarrow> overpass_reply \<Rightarrow> MapService \<Rightarrow> MapService" where
  "reconcile bounds reply s =
     (if \<not> moveSubscribed s then s
      else
        let s1 = onMapMove bounds s
        in onLocations
             (fetchLocationsFromOverpass (platformBrowser s1) (currentZoomLevel s1) reply) s1)"

text \<open>
  The two listeners that \<^verbatim>\<open>updateMarkersOnMapChange\<close> registers, run against the
  current state of the map object.
\<close>

definition boundsEvent :: "LatLngBounds \<Rightarrow> bool \<Rightarrow> BoundsEvent" where
  "boundsEvent b z =
     \<lparr> north = north b, south = south b, east = east b, west = west b, isZoomChange = z \<rparr>"

definition onZoomEnd :: "MapService \<Rightarrow> MapService" where
  "onZoomEnd s =
     (case map_handle s of
        None \<Rightarrow> s
      | Some mp \<Rightarrow>
          let s1 = s\<lparr>currentZoomLevel := getZoom mp\<rparr>
          in case getBounds mp of
               None \<Rightarrow> s1
             | Some bounds \<Rightarrow> s1\<lparr>mapMoveSubject := mapMoveSubject s1 @ [boundsEvent bounds True]\<rparr>)"

definition onMoveEnd :: "MapService \<Rightarrow> MapService" where
  "onMoveEnd s =
     (case map_handle s of
        None \<Rightarrow> s
      | Some mp \<Rightarrow>
          if js_strict_neq (getZoom mp) (currentZoomLevel s)
            then s\<lparr>currentZoomLevel := getZoom mp\<rparr>
          else case getBounds mp of
                 None \<Rightarrow> s
               | Some bounds \<Rightarrow> s\<lparr>mapMoveSubject := mapMoveSubject s @ [boundsEvent bounds False]\<rparr>)"

text \<open>How many markers of \<^verbatim>\<open>this.markers\<close> stand for the place with a given id.\<close>

definition markerCount :: "MapService \<Rightarrow> string \<Rightarrow> nat" where
  "markerCount s i = length (filter (\<lambda>m. loc_id (location (markerData m)) = i) (markers s))"

section \<open>Vocabulary of the properties and example inputs\<close>

text \<open>
  An import that ends in one of the outcomes after which \<^verbatim>\<open>loadLeaflet\<close> retries: the
  import is rejected, or the module comes without its \<^verbatim>\<open>Map\<close> constructor at the
  first or at the second check.
\<close>

definition import_fails :: "import_outcome \<Rightarrow> bool" where
  "import_fails out =
     (case out of
        ImportRejected err \<Rightarrow> True
      | Imported i first second \<Rightarrow> first = Missing \<or> second = Missing)"


text \<open>A city node with a name, coordinates and the given \<^verbatim>\<open>capital\<close> tag.\<close>

definition rankedPlace :: "int \<Rightarrow> string \<Rightarrow> OverpassElement" where
  "rankedPlace i rank =
     \<lparr> el_id = i,
       el_tags = Some \<lparr> tag_name = Some ''Madrid'', tag_name_es = None, tag_name_en = None,
                        tag_place = Some ''city'', tag_capital = Some rank \<rparr>,
       el_lat = Some 40, el_lon = Some (-3), el_center = None \<rparr>"

text \<open>A city node with no \<^verbatim>\<open>capital\<close> tag.\<close>

definition untaggedPlace :: "int \<Rightarrow> OverpassElement" where
  "untaggedPlace i =
     \<lparr> el_id = i,
       el_tags = Some \<lparr> tag_name = Some ''Getafe'', tag_name_es = None, tag_name_en = None,
                        tag_place = Some ''city'', tag_capital = None \<rparr>,
       el_lat = Some 40, el_lon = Some (-4), el_center = None \<rparr>"

text \<open>A place with the given id and latitude.\<close>

definition placeAt :: "string \<Rightarrow> rat \<Rightarrow> WeatherLocation" where
  "placeAt i la =
     \<lparr> loc_id = i, name = ''Madrid'', name_es = None, name_en = None,
       latitude = la, longitude = - 3, capital = Fin 1, place = Some ''city'' \<rparr>"

definition sampleResponse :: OpenMeteoResponse where
  "sampleResponse =
     \<lparr> current_weather =
         \<lparr> cw_temperature = 21, cw_windspeed = 7, cw_weathercode = 2, cw_time = ''2025-06-03T10:00'' \<rparr>,
       daily =
         \<lparr> daily_time = [''2025-06-03'', ''2025-06-04''],
           daily_weathercode = [2, 61],
           daily_temperature_2m_max = [25, 19],
           daily_temperature_2m_min = [14, 12] \<rparr>,
       hourly =
         \<lparr> hourly_time = [''2025-06-03T09:00'', ''2025-06-03T10:00''],
           hourly_relativehumidity_2m = [40, 35],
           hourly_precipitation = [0, 0] \<rparr> \<rparr>"

definition sampleClock :: Clock where
  "sampleClock =
     \<lparr> now = \<lparr> getHours = 10, getDate = 3 \<rparr>,
       dateOf = (\<lambda>t. if t = ''2025-06-03T09:00'' then Some \<lparr> getHours = 9, getDate = 3 \<rparr>
                     else if t = ''2025-06-03T10:00'' then Some \<lparr> getHours = 10, getDate = 3 \<rparr>
                     else None) \<rparr>"

text \<open>The weather service as constructed in a browser.\<close>

definition newWeatherService :: WeatherService where
  "newWeatherService =
     \<lparr> isBrowser = True, weatherCache = Map.empty, currentWeather = None,
       httpRequests = [], consoleErrors = [] \<rparr>"

definition sampleLeaflet :: Leaflet where
  "sampleLeaflet = \<lparr> module_id = 0, Map_ctor = Callable \<rparr>"

definition spainBounds :: LatLngBounds where
  "spainBounds = \<lparr> north = 44, south = 36, east = 4, west = - 10 \<rparr>"

text \<open>
  The map service in a browser once \<^verbatim>\<open>initMap\<close> has created the map (zoom 6, no
  cluster plugin) and \<^verbatim>\<open>updateMarkersOnMapChange\<close> has registered the listeners; no
  marker yet.
\<close>

definition readyService :: MapService where
  "readyService =
     \<lparr> platformBrowser = True,
       L = Some sampleLeaflet,
       leafletLoadPromise = Some (Some sampleLeaflet),
       loadAttempts = 1,
       map_handle = Some \<lparr> getZoom = Fin 6, getBounds = Some spainBounds \<rparr>,
       markers = [],
       markersLayer = Some [],
       markerClusterGroup = None,
       weatherService = newWeatherService,
       markerLocationIds = {},
       markerToLocationId = Map.empty,
       markersAddedDuringInit = False,
       isInitializing = True,
       mapMoveSubject = [],
       currentZoomLevel = Fin 6,
       waiting = [],
       nextRef = 0,
       moveSubscribed = True \<rparr>"

text \<open>A browser in which nothing has been loaded yet.\<close>

definition newRuntime :: Runtime where
  "newRuntime =
     \<lparr> window_defined = True, window_L = None, attempts_started = [], delays = [],
       imports_done = 0 \<rparr>"

text \<open>
  Every waiting subscription and every marker of the service goes back to a place of
  the list: a marker through the id it is registered under in
  \<^verbatim>\<open>markerToLocationId\<close>.
\<close>

definition tracks :: "WeatherLocation list \<Rightarrow> MapService \<Rightarrow> bool" where
  "tracks ls s =
     ((\<forall>l \<in> set (waiting s). l \<in> set ls)
      \<and> (\<forall>m \<in> set (markers s).
            \<exists>l \<in> set ls. markerToLocationId s m = Some (loc_id l)))"

text \<open>
  The ready service after markers were added for a place inside the bounds of the map
  (id 1, latitude 40) and one outside (id 2, latitude 60) and both weather replies came.
\<close>

definition twoMarkers :: MapService where
  "twoMarkers =
     weatherArrivals
       [(0, sampleClock, HttpReturns sampleResponse), (0, sampleClock, HttpReturns sampleResponse)]
       (addMarkersForLocations [placeAt ''1'' 40, placeAt ''2'' 60] readyService)"

section \<open>The Overpass reply: rank filter and order\<close>

lemma set_js_insert: "set (js_insert cmp x xs) = insert x (set xs)"
  by (induction xs) auto

lemma set_js_sort: "set (js_sort cmp xs) = set xs"
  by (induction xs) (simp_all add: js_sort_def set_js_insert)

lemma keepLocation_not_NaN: "keepLocation zoom l \<Longrightarrow> capital l \<noteq> NaN"
  by (cases "capital l") (auto simp: keepLocation_def)

lemma set_allLocations:
  "set (allLocations zoom es) =
     {toLocation e | e. e \<in> set es \<and> str_truthy (tag_of tag_place e) \<and> keepLocation zoom (toLocation e)}"
  by (auto simp: allLocations_def set_js_sort)

lemma allLocations_drop_NaN:
  "allLocations zoom (filter (\<lambda>e. capital (toLocation e) \<noteq> NaN) es) = allLocations zoom es"
proof -
  have "filter (keepLocation zoom)
          (map toLocation (filter (\<lambda>e. str_truthy (tag_of tag_place e))
             (filter (\<lambda>e. capital (toLocation e) \<noteq> NaN) es)))
        = filter (keepLocation zoom)
          (map toLocation (filter (\<lambda>e. str_truthy (tag_of tag_place e)) es))"
    by (induction es) (auto dest: keepLocation_not_NaN)
  then show ?thesis by (simp add: allLocations_def)
qed

lemma fetched_locations:
  assumes "fetchLocationsFromOverpass b zoom reply = Inr ls" and "l \<in> set ls"
  shows "\<exists>es. reply = Body (Some es) \<and> l \<in> set (allLocations zoom es)"
  using assms
  by (auto simp: fetchLocationsFromOverpass_def
      split: if_splits overpass_reply.splits option.splits)

lemma js_positive_sub:
  "a \<noteq> NaN \<Longrightarrow> b \<noteq> NaN \<Longrightarrow> js_positive (js_sub a b) = (\<not> js_le a b)"
  by (cases a; cases b) (auto simp: js_positive_def)

lemma js_le_trans: "js_le a b \<Longrightarrow> js_le b c \<Longrightarrow> js_le a c"
  by (cases a; cases b; cases c) auto

lemma js_le_linear: "a \<noteq> NaN \<Longrightarrow> b \<noteq> NaN \<Longrightarrow> js_le a b \<or> js_le b a"
  by (cases a; cases b) auto

lemma sorted_js_insert:
  assumes "sorted_wrt (\<lambda>a b. js_le (capital a) (capital b)) xs"
    and "\<forall>y \<in> set (x # xs). capital y \<noteq> NaN"
  shows "sorted_wrt (\<lambda>a b. js_le (capital a) (capital b)) (js_insert byCapital x xs)"
  using assms
proof (induction xs)
  case Nil
  then show ?case by simp
next
  case (Cons y ys)
  have nx: "capital x \<noteq> NaN" and ny: "capital y \<noteq> NaN" using Cons.prems(2) by auto
  have p: "js_positive (byCapital x y) = (\<not> js_le (capital x) (capital y))"
    by (simp add: byCapital_def js_positive_sub nx ny)
  show ?case
  proof (cases "js_le (capital x) (capital y)")
    case True
    have "js_le (capital x) (capital z)" if "z \<in> set ys" for z
      using that True Cons.prems(1) js_le_trans [of "capital x" "capital y" "capital z"] by auto
    with True Cons.prems(1) show ?thesis
      by (auto simp: p)
  next
    case False
    then have yx: "js_le (capital y) (capital x)"
      using js_le_linear [OF nx ny] by auto
    have "sorted_wrt (\<lambda>a b. js_le (capital a) (capital b)) (js_insert byCapital x ys)"
      using Cons.IH Cons.prems by auto
    with False yx Cons.prems(1) show ?thesis
      by (auto simp: p set_js_insert)
  qed
qed

lemma sorted_js_sort:
  "\<forall>y \<in> set xs. capital y \<noteq> NaN \<Longrightarrow>
     sorted_wrt (\<lambda>a b. js_le (capital a) (capital b)) (js_sort byCapital xs)"
proof (induction xs)
  case Nil
  then show ?case by (simp add: js_sort_def)
next
  case (Cons x xs)
  have "js_sort byCapital (x # xs) = js_insert byCapital x (js_sort byCapital xs)"
    by (simp add: js_sort_def)
  moreover have "sorted_wrt (\<lambda>a b. js_le (capital a) (capital b)) (js_sort byCapital xs)"
    using Cons by simp
  moreover have "\<forall>y \<in> set (x # js_sort byCapital xs). capital y \<noteq> NaN"
    using Cons.prems by (simp add: set_js_sort)
  ultimately show ?case using sorted_js_insert by simp
qed

lemma length_js_insert: "length (js_insert cmp x xs) = Suc (length xs)"
  by (induction xs) auto

lemma length_js_sort: "length (js_sort cmp xs) = length xs"
  by (induction xs) (simp_all add: js_sort_def length_js_insert)

lemma js_le_antisym: "js_le a b \<Longrightarrow> js_le b a \<Longrightarrow> a = b"
  by (cases a; cases b) auto

lemma js_sort_Cons: "js_sort cmp (x # xs) = js_insert cmp x (js_sort cmp xs)"
  by (simp add: js_sort_def)

lemma distinct_js_insert: "distinct (js_insert cmp x xs) = (x \<notin> set xs \<and> distinct xs)"
  by (induction xs) (auto simp: set_js_insert)

lemma distinct_js_sort: "distinct (js_sort cmp xs) = distinct xs"
proof (induction xs)
  case Nil
  then show ?case by (simp add: js_sort_def)
next
  case (Cons x xs)
  then show ?case by (simp add: js_sort_Cons distinct_js_insert set_js_sort)
qed

lemma sorted_wrt_unique:
  assumes "sorted_wrt R xs" and "sorted_wrt R ys" and "distinct xs" and "distinct ys"
    and "set xs = set ys"
    and anti: "\<And>a b. a \<in> set xs \<Longrightarrow> b \<in> set xs \<Longrightarrow> R a b \<Longrightarrow> R b a \<Longrightarrow> a = b"
  shows "xs = ys"
  using assms
proof (induction xs arbitrary: ys)
  case Nil
  then show ?case by simp
next
  case (Cons x xs)
  from Cons.prems(5) obtain y ys' where ys: "ys = y # ys'"
    by (cases ys) auto
  have xy: "x = y"
  proof (rule ccontr)
    assume ne: "x \<noteq> y"
    have "x \<in> set ys'" using Cons.prems(5) ys ne by auto
    then have 1: "R y x" using Cons.prems(2) ys by auto
    have "y \<in> set xs" using Cons.prems(5) ys ne by auto
    then have 2: "R x y" using Cons.prems(1) by auto
    have "x \<in> set (x # xs)" and "y \<in> set (x # xs)"
      using \<open>y \<in> set xs\<close> by simp_all
    from Cons.prems(6) [OF this 2 1] ne show False by simp
  qed
  have s: "set xs = set ys'"
    using Cons.prems(3,4,5) ys xy by auto
  have "xs = ys'"
  proof (rule Cons.IH)
    show "sorted_wrt R xs" using Cons.prems(1) by simp
    show "sorted_wrt R ys'" using Cons.prems(2) ys by simp
    show "distinct xs" using Cons.prems(3) by simp
    show "distinct ys'" using Cons.prems(4) ys by simp
    show "set xs = set ys'" by (rule s)
    show "\<And>a b. a \<in> set xs \<Longrightarrow> b \<in> set xs \<Longrightarrow> R a b \<Longrightarrow> R b a \<Longrightarrow> a = b"
      using Cons.prems(6) by simp
  qed
  with xy ys show ?case by simp
qed

text \<open>
  The list \<^verbatim>\<open>fetchLocationsFromOverpass\<close> builds is the one list that is in ascending
  order of rank and holds each kept place once, when the places of the reply are
  pairwise different and every element has a place tag.
\<close>

lemma allLocations_is:
  assumes tagged: "\<forall>e \<in> set es. str_truthy (tag_of tag_place e)"
    and dist: "distinct (map toLocation es)"
    and sorted: "sorted_wrt (\<lambda>a b. js_le (capital a) (capital b)) t"
    and dt: "distinct t"
    and st: "set t = {l \<in> toLocation ` set es. keepLocation zoom l}"
    and inj: "inj_on capital (set t)"
  shows "allLocations zoom es = t"
proof -
  let ?kept = "filter (keepLocation zoom) (map toLocation es)"
  have f: "filter (\<lambda>e. str_truthy (tag_of tag_place e)) es = es"
    using tagged by simp
  have a: "allLocations zoom es = js_sort byCapital ?kept"
    by (simp add: allLocations_def f)
  have "\<forall>y \<in> set ?kept. capital y \<noteq> NaN"
    by (auto dest: keepLocation_not_NaN)
  then have 1: "sorted_wrt (\<lambda>a b. js_le (capital a) (capital b)) (js_sort byCapital ?kept)"
    by (rule sorted_js_sort)
  have 2: "distinct (js_sort byCapital ?kept)"
    using dist by (simp add: distinct_js_sort)
  have 3: "set (js_sort byCapital ?kept) = set t"
    using st by (auto simp: set_js_sort)
  have "js_sort byCapital ?kept = t"
  proof (rule sorted_wrt_unique [OF 1 sorted 2 dt 3])
    fix a b
    assume "a \<in> set (js_sort byCapital ?kept)" and "b \<in> set (js_sort byCapital ?kept)"
      and "js_le (capital a) (capital b)" and "js_le (capital b) (capital a)"
    then have "a \<in> set t" and "b \<in> set t" and "capital a = capital b"
      using 3 js_le_antisym by auto
    with inj show "a = b" by (auto simp: inj_on_def)
  qed
  with a show ?thesis by simp
qed

text \<open>
  C2, as the claim states it, fails: at zoom level 6 the threshold of the filter is the
  zoom level itself, so of the ranks 0, 5, 9, 12 only 0 and 5 are returned; the place of
  rank 9 is dropped.
\<close>

theorem fetch_zoom6_drops_rank9:
  "fetchLocationsFromOverpass True (Fin 6)
     (Body (Some [rankedPlace 1 ''0'', rankedPlace 2 ''5'', rankedPlace 3 ''9'', rankedPlace 4 ''12'']))
   = Inr [toLocation (rankedPlace 1 ''0''), toLocation (rankedPlace 2 ''5'')]
   \<and> fetchLocationsFromOverpass True (Fin 6)
     (Body (Some [rankedPlace 1 ''0'', rankedPlace 2 ''5'', rankedPlace 3 ''9'', rankedPlace 4 ''12'']))
   \<noteq> Inr [toLocation (rankedPlace 1 ''0''), toLocation (rankedPlace 2 ''5''),
           toLocation (rankedPlace 3 ''9'')]"
  by code_simp

text \<open>
  C2, amended: given candidates of ranks 0, 5, 9, 12 in any order, each with a place
  tag, a usable name and non-zero coordinates, \<^verbatim>\<open>fetchLocationsFromOverpass\<close> at zoom
  level 6 returns exactly the places of rank at most 6, in ascending order of rank:
  those of rank 0 and 5. The bound 9 applies only when the zoom level is falsy (0 or
  \<^verbatim>\<open>NaN\<close>); then the result is the places of rank 0, 5 and 9, in this order.
\<close>

theorem fetch_rank_filter:
  assumes usable: "\<forall>e \<in> set [e0, e5, e9, e12].
             str_truthy (tag_of tag_place e) \<and> name (toLocation e) \<noteq> ''Unknown''
             \<and> latitude (toLocation e) \<noteq> 0 \<and> longitude (toLocation e) \<noteq> 0"
    and ranks: "map (\<lambda>e. capital (toLocation e)) [e0, e5, e9, e12] = [Fin 0, Fin 5, Fin 9, Fin 12]"
    and order: "distinct es" "set es = {e0, e5, e9, e12}"
  shows "fetchLocationsFromOverpass True (Fin 6) (Body (Some es))
           = Inr [toLocation e0, toLocation e5]
         \<and> fetchLocationsFromOverpass True (Fin 0) (Body (Some es))
           = Inr [toLocation e0, toLocation e5, toLocation e9]
         \<and> fetchLocationsFromOverpass True NaN (Body (Some es))
           = Inr [toLocation e0, toLocation e5, toLocation e9]"
proof -
  have tagged: "\<forall>e \<in> set es. str_truthy (tag_of tag_place e)"
    using usable order(2) by auto
  have inj: "inj_on toLocation (set es)"
    unfolding order(2) using ranks by (auto simp: inj_on_def)
  then have dist: "distinct (map toLocation es)"
    using order(1) by (simp add: distinct_map)
  have six: "allLocations (Fin 6) es = [toLocation e0, toLocation e5]"
  proof (rule allLocations_is [OF tagged dist])
    show "sorted_wrt (\<lambda>a b. js_le (capital a) (capital b)) [toLocation e0, toLocation e5]"
      using ranks by simp
    show "distinct [toLocation e0, toLocation e5]"
      using ranks by auto
    show "set [toLocation e0, toLocation e5]
            = {l \<in> toLocation ` set es. keepLocation (Fin 6) l}"
      unfolding order(2) using usable ranks
      by (auto simp: keepLocation_def js_or_def js_truthy_def)
    show "inj_on capital (set [toLocation e0, toLocation e5])"
      using ranks by (auto simp: inj_on_def)
  qed
  have nine: "allLocations z es = [toLocation e0, toLocation e5, toLocation e9]"
    if "z = Fin 0 \<or> z = NaN" for z
  proof (rule allLocations_is [OF tagged dist])
    show "sorted_wrt (\<lambda>a b. js_le (capital a) (capital b))
            [toLocation e0, toLocation e5, toLocation e9]"
      using ranks by simp
    show "distinct [toLocation e0, toLocation e5, toLocation e9]"
      using ranks by auto
    show "set [toLocation e0, toLocation e5, toLocation e9]
            = {l \<in> toLocation ` set es. keepLocation z l}"
      unfolding order(2) using usable ranks that
      by (auto simp: keepLocation_def js_or_def js_truthy_def)
    show "inj_on capital (set [toLocation e0, toLocation e5, toLocation e9])"
      using ranks by (auto simp: inj_on_def)
  qed
  from six nine [of "Fin 0"] nine [of NaN] show ?thesis
    by (simp add: fetchLocationsFromOverpass_def)
qed

theorem fetch_rank_filter_witness:
  "fetchLocationsFromOverpass True (Fin 6)
     (Body (Some [rankedPlace 4 ''12'', rankedPlace 2 ''5'', rankedPlace 3 ''9'', rankedPlace 1 ''0'']))
   = Inr [toLocation (rankedPlace 1 ''0''), toLocation (rankedPlace 2 ''5'')]
   \<and> fetchLocationsFromOverpass True (Fin 0)
     (Body (Some [rankedPlace 4 ''12'', rankedPlace 2 ''5'', rankedPlace 3 ''9'', rankedPlace 1 ''0'']))
   = Inr [toLocation (rankedPlace 1 ''0''), toLocation (rankedPlace 2 ''5''),
          toLocation (rankedPlace 3 ''9'')]
   \<and> map capital [toLocation (rankedPlace 1 ''0''), toLocation (rankedPlace 2 ''5''),
                    toLocation (rankedPlace 3 ''9'')]
     = [Fin 0, Fin 5, Fin 9]"
proof -
  have u: "\<forall>e \<in> set [rankedPlace 1 ''0'', rankedPlace 2 ''5'', rankedPlace 3 ''9'',
                       rankedPlace 4 ''12''].
             str_truthy (tag_of tag_place e) \<and> name (toLocation e) \<noteq> ''Unknown''
             \<and> latitude (toLocation e) \<noteq> 0 \<and> longitude (toLocation e) \<noteq> 0"
    by code_simp
  have r: "map (\<lambda>e. capital (toLocation e))
             [rankedPlace 1 ''0'', rankedPlace 2 ''5'', rankedPlace 3 ''9'', rankedPlace 4 ''12'']
           = [Fin 0, Fin 5, Fin 9, Fin 12]"
    by code_simp
  have d: "distinct [rankedPlace 4 ''12'', rankedPlace 2 ''5'', rankedPlace 3 ''9'',
                     rankedPlace 1 ''0'']"
    by code_simp
  have s: "set [rankedPlace 4 ''12'', rankedPlace 2 ''5'', rankedPlace 3 ''9'', rankedPlace 1 ''0'']
           = {rankedPlace 1 ''0'', rankedPlace 2 ''5'', rankedPlace 3 ''9'', rankedPlace 4 ''12''}"
    by auto
  have c: "map capital [toLocation (rankedPlace 1 ''0''), toLocation (rankedPlace 2 ''5''),
                        toLocation (rankedPlace 3 ''9'')]
           = [Fin 0, Fin 5, Fin 9]"
    by code_simp
  show ?thesis using fetch_rank_filter [OF u r d s] c by simp
qed

text \<open>
  C10: an element whose \<^verbatim>\<open>capital\<close> tag is absent, or is a string other than
  \<^verbatim>\<open>yes\<close> that \<^verbatim>\<open>Number\<close> maps to \<^verbatim>\<open>NaN\<close>, gets the rank \<^verbatim>\<open>NaN\<close>; every place
  that \<^verbatim>\<open>fetchLocationsFromOverpass\<close> returns has a rank that is not \<^verbatim>\<open>NaN\<close> and is at
  most the threshold; so at every zoom level the place of such an element is not in the
  result, and the result is the same as if those elements were not in the reply.
\<close>

theorem capital_NaN_excluded:
  "(tag_of tag_capital e = None \<longrightarrow> capital (toLocation e) = NaN)
   \<and> (tag_of tag_capital e = Some t \<and> t \<noteq> ''yes'' \<and> Number_of_string t = NaN
        \<longrightarrow> capital (toLocation e) = NaN)
   \<and> (fetchLocationsFromOverpass b zoom reply = Inr ls \<longrightarrow>
        (\<forall>l \<in> set ls. capital l \<noteq> NaN \<and> js_le (capital l) (js_or zoom (Fin 9)))
        \<and> (capital (toLocation e) = NaN \<longrightarrow> toLocation e \<notin> set ls))
   \<and> fetchLocationsFromOverpass b zoom
        (Body (Some (filter (\<lambda>e. capital (toLocation e) \<noteq> NaN) es)))
      = fetchLocationsFromOverpass b zoom (Body (Some es))"
proof -
  have a: "tag_of tag_capital e = None \<longrightarrow> capital (toLocation e) = NaN"
    by (simp add: toLocation_def Number_js_def)
  have b: "tag_of tag_capital e = Some t \<and> t \<noteq> ''yes'' \<and> Number_of_string t = NaN
        \<longrightarrow> capital (toLocation e) = NaN"
    by (simp add: toLocation_def Number_js_def)
  have c: "capital l \<noteq> NaN \<and> js_le (capital l) (js_or zoom (Fin 9))"
    if "fetchLocationsFromOverpass b zoom reply = Inr ls" and "l \<in> set ls" for l
  proof -
    from fetched_locations [OF that] obtain es' where "l \<in> set (allLocations zoom es')"
      by blast
    then have "keepLocation zoom l"
      by (auto simp: set_allLocations)
    then show ?thesis
      using keepLocation_not_NaN [of zoom l] by (simp add: keepLocation_def)
  qed
  have d: "fetchLocationsFromOverpass b zoom
        (Body (Some (filter (\<lambda>e. capital (toLocation e) \<noteq> NaN) es)))
      = fetchLocationsFromOverpass b zoom (Body (Some es))"
    by (simp add: fetchLocationsFromOverpass_def allLocations_drop_NaN)
  from a b c d show ?thesis by blast
qed

theorem capital_NaN_excluded_witness:
  "capital (toLocation (untaggedPlace 7)) = NaN
   \<and> capital (toLocation (rankedPlace 8 ''regional'')) = NaN
   \<and> fetchLocationsFromOverpass True (Fin 12)
       (Body (Some [untaggedPlace 7, rankedPlace 8 ''regional'', rankedPlace 2 ''5'']))
     = Inr [toLocation (rankedPlace 2 ''5'')]
   \<and> toLocation (untaggedPlace 7) \<notin> set [toLocation (rankedPlace 2 ''5'')]
   \<and> capital (toLocation (rankedPlace 2 ''5'')) \<noteq> NaN"
proof -
  have t: "tag_of tag_capital (untaggedPlace 7) = None"
    by (simp add: tag_of_def untaggedPlace_def)
  have r: "fetchLocationsFromOverpass True (Fin 12)
       (Body (Some [untaggedPlace 7, rankedPlace 8 ''regional'', rankedPlace 2 ''5'']))
     = Inr [toLocation (rankedPlace 2 ''5'')]"
    by code_simp
  have n: "capital (toLocation (rankedPlace 8 ''regional'')) = NaN"
    by code_simp
  from capital_NaN_excluded
    [of "untaggedPlace 7" "''x''" True "Fin 12"
        "Body (Some [untaggedPlace 7, rankedPlace 8 ''regional'', rankedPlace 2 ''5''])"
        "[toLocation (rankedPlace 2 ''5'')]" "[]"]
  show ?thesis using t r n by simp
qed

section \<open>The weather service: cache and errors\<close>

text \<open>
  C6, as the claim states it, fails in three ways. When the first request fails, nothing
  is cached: the second call sends a second request, and the two calls return different
  values. When the place is cached before the first call, no request is sent at all.
  When the second call is subscribed to before the reply of the first has arrived, both
  send a request.
\<close>

theorem weather_two_calls_two_requests:
  "length (httpRequests (snd
      (getWeatherForLocation sampleClock (HttpReturns sampleResponse) (placeAt ''1'' 40)
        (snd (getWeatherForLocation sampleClock (HttpFails (NetworkError ''offline''))
               (placeAt ''1'' 40) newWeatherService))))) = 2
   \<and> fst (getWeatherForLocation sampleClock (HttpFails (NetworkError ''offline''))
               (placeAt ''1'' 40) newWeatherService) = Inr None
   \<and> fst (getWeatherForLocation sampleClock (HttpReturns sampleResponse) (placeAt ''1'' 40)
        (snd (getWeatherForLocation sampleClock (HttpFails (NetworkError ''offline''))
               (placeAt ''1'' 40) newWeatherService)))
     = Inr (Some (toWeatherData sampleClock (placeAt ''1'' 40) sampleResponse))
   \<and> httpRequests (snd
      (getWeatherForLocation sampleClock (HttpReturns sampleResponse) (placeAt ''1'' 40)
        (snd (getWeatherForLocation sampleClock (HttpReturns sampleResponse) (placeAt ''1'' 40)
          (newWeatherService\<lparr>weatherCache :=
             [''1'' \<mapsto> toWeatherData sampleClock (placeAt ''1'' 40) sampleResponse]\<rparr>))))) = []
   \<and> httpRequests (snd (getWeatherForLocation_subscribe (placeAt ''1'' 40)
        (snd (getWeatherForLocation_subscribe (placeAt ''1'' 40) newWeatherService))))
     = [placeAt ''1'' 40, placeAt ''1'' 40]"
  by (simp add: getWeatherForLocation_def getWeatherForLocation_subscribe_def
      getWeatherForLocation_complete_def newWeatherService_def placeAt_def Let_def)

text \<open>
  C6, amended: in a browser, when the place id is not cached and the request of the
  first call succeeds, two calls for that id send exactly one request: the first call
  sends it and returns the snapshot of the response, the second call returns the same
  snapshot and sends nothing, however its own request would have ended.
\<close>

theorem weather_cache_idempotent:
  assumes "isBrowser ws" and "weatherCache ws (loc_id loc) = None"
    and "loc_id loc' = loc_id loc"
  shows "fst (getWeatherForLocation clock (HttpReturns response) loc ws)
           = Inr (Some (toWeatherData clock loc response))
         \<and> fst (getWeatherForLocation clock' outcome' loc'
                  (snd (getWeatherForLocation clock (HttpReturns response) loc ws)))
           = fst (getWeatherForLocation clock (HttpReturns response) loc ws)
         \<and> httpRequests (snd (getWeatherForLocation clock (HttpReturns response) loc ws))
           = httpRequests ws @ [loc]
         \<and> httpRequests (snd (getWeatherForLocation clock' outcome' loc'
                  (snd (getWeatherForLocation clock (HttpReturns response) loc ws))))
           = httpRequests ws @ [loc]"
  using assms
  by (simp add: getWeatherForLocation_def getWeatherForLocation_subscribe_def
      getWeatherForLocation_complete_def Let_def)

theorem weather_cache_idempotent_witness:
  "fst (getWeatherForLocation sampleClock (HttpFails SyntaxError) (placeAt ''1'' 40)
          (snd (getWeatherForLocation sampleClock (HttpReturns sampleResponse) (placeAt ''1'' 40)
                  newWeatherService)))
     = Inr (Some (toWeatherData sampleClock (placeAt ''1'' 40) sampleResponse))
   \<and> httpRequests (snd (getWeatherForLocation sampleClock (HttpFails SyntaxError) (placeAt ''1'' 40)
          (snd (getWeatherForLocation sampleClock (HttpReturns sampleResponse) (placeAt ''1'' 40)
                  newWeatherService))))
     = [placeAt ''1'' 40]"
proof -
  have b: "isBrowser newWeatherService"
    and c: "weatherCache newWeatherService (loc_id (placeAt ''1'' 40)) = None"
    by (simp_all add: newWeatherService_def)
  from weather_cache_idempotent [OF b c refl, of sampleClock sampleResponse sampleClock
      "HttpFails SyntaxError"]
  show ?thesis by (simp add: newWeatherService_def)
qed

text \<open>
  C7: when the request of a weather fetch fails, \<^verbatim>\<open>getWeatherForLocation\<close> delivers
  \<^verbatim>\<open>null\<close> through \<^verbatim>\<open>next\<close> (never an error), passes the error to \<^verbatim>\<open>console.error\<close>,
  and leaves the cache as it was: no entry for the place is added.
\<close>

theorem weather_error_is_null:
  assumes "isBrowser ws" and "weatherCache ws (loc_id loc) = None"
  shows "getWeatherForLocation clock (HttpFails err) loc ws
           = (Inr None, ws\<lparr>httpRequests := httpRequests ws @ [loc],
                           consoleErrors := consoleErrors ws @ [err]\<rparr>)
         \<and> weatherCache (snd (getWeatherForLocation clock (HttpFails err) loc ws))
           = weatherCache ws
         \<and> weatherCache (snd (getWeatherForLocation clock (HttpFails err) loc ws)) (loc_id loc)
           = None
         \<and> getWeatherForLocation_complete clock (HttpFails err) loc ws'
           = (Inr None, ws'\<lparr>consoleErrors := consoleErrors ws' @ [err]\<rparr>)"
  using assms
  by (simp add: getWeatherForLocation_def getWeatherForLocation_subscribe_def
      getWeatherForLocation_complete_def Let_def)

theorem weather_error_is_null_witness:
  "fst (getWeatherForLocation sampleClock (HttpFails (NetworkError ''offline''))
          (placeAt ''1'' 40) newWeatherService) = Inr None
   \<and> consoleErrors (snd (getWeatherForLocation sampleClock (HttpFails (NetworkError ''offline''))
          (placeAt ''1'' 40) newWeatherService)) = [NetworkError ''offline'']
   \<and> weatherCache (snd (getWeatherForLocation sampleClock (HttpFails (NetworkError ''offline''))
          (placeAt ''1'' 40) newWeatherService)) ''1'' = None"
proof -
  have b: "isBrowser newWeatherService"
    and c: "weatherCache newWeatherService (loc_id (placeAt ''1'' 40)) = None"
    by (simp_all add: newWeatherService_def)
  from weather_error_is_null [OF b c, of sampleClock "NetworkError ''offline''" newWeatherService]
  show ?thesis by (simp add: newWeatherService_def placeAt_def)
qed

section \<open>The map's notifications\<close>

text \<open>
  C9: when \<^verbatim>\<open>moveend\<close> fires while the map's zoom level differs from the tracked one,
  the listener only sets the tracked zoom level to the map's: nothing is passed to
  \<^verbatim>\<open>mapMoveSubject\<close>, so no pan-tagged event is forwarded.
\<close>

theorem moveend_after_zoom_not_forwarded:
  assumes "map_handle s = Some mp" and "js_strict_neq (getZoom mp) (currentZoomLevel s)"
  shows "onMoveEnd s = s\<lparr>currentZoomLevel := getZoom mp\<rparr>
         \<and> mapMoveSubject (onMoveEnd s) = mapMoveSubject s"
  using assms by (simp add: onMoveEnd_def)

theorem moveend_after_zoom_not_forwarded_witness:
  "mapMoveSubject (onMoveEnd (readyService\<lparr>map_handle :=
       Some \<lparr> getZoom = Fin 7, getBounds = Some spainBounds \<rparr>\<rparr>)) = []
   \<and> currentZoomLevel (onMoveEnd (readyService\<lparr>map_handle :=
       Some \<lparr> getZoom = Fin 7, getBounds = Some spainBounds \<rparr>\<rparr>)) = Fin 7"
proof -
  have m: "map_handle (readyService\<lparr>map_handle :=
       Some \<lparr> getZoom = Fin 7, getBounds = Some spainBounds \<rparr>\<rparr>)
       = Some \<lparr> getZoom = Fin 7, getBounds = Some spainBounds \<rparr>"
    by simp
  have z: "js_strict_neq (getZoom \<lparr> getZoom = Fin 7, getBounds = Some spainBounds \<rparr>)
       (currentZoomLevel (readyService\<lparr>map_handle :=
       Some \<lparr> getZoom = Fin 7, getBounds = Some spainBounds \<rparr>\<rparr>))"
    by (simp add: js_strict_neq_def readyService_def)
  from moveend_after_zoom_not_forwarded [OF m z]
  show ?thesis by (simp add: readyService_def)
qed

section \<open>Loading Leaflet: bounded retries and forced reload\<close>

lemma loadLeaflet_attempt_facts:
  assumes "loadLeaflet_attempt imp rt s = (r, rt', s')"
  shows "attempts_started rt' = attempts_started rt @ [loadAttempts s + 1]"
    and "platformBrowser s' = platformBrowser s"
    and "loadAttempts s' = loadAttempts s + 1"
  using assms
  by (auto simp: loadLeaflet_attempt_def Let_def split: if_splits import_outcome.splits)

lemma loadLeaflet_attempt_failed:
  assumes "window_defined rt" and "\<not> window_L_usable rt"
    and "import_fails (imp (imports_done rt))"
  shows "\<exists>rt'. loadLeaflet_attempt imp rt s = (Failed, rt', s\<lparr>loadAttempts := loadAttempts s + 1\<rparr>)
           \<and> window_defined rt' \<and> window_L rt' = window_L rt
           \<and> attempts_started rt' = attempts_started rt @ [loadAttempts s + 1]
           \<and> imports_done rt' = imports_done rt + 1"
  using assms
  by (auto simp: loadLeaflet_attempt_def Let_def window_L_usable_def import_fails_def
      split: import_outcome.splits)

lemma loadLeaflet_failed_step:
  assumes "platformBrowser s" and "window_defined rt" and "\<not> window_L_usable rt"
    and "import_fails (imp (imports_done rt))"
  shows "\<exists>rt'. window_defined rt' \<and> \<not> window_L_usable rt'
           \<and> window_L rt' = window_L rt
           \<and> attempts_started rt' = attempts_started rt @ [loadAttempts s + 1]
           \<and> imports_done rt' = imports_done rt + 1
           \<and> loadLeaflet imp rt s =
               (if loadAttempts s + 1 < MAX_LOAD_ATTEMPTS
                  then loadLeaflet imp rt' (s\<lparr>loadAttempts := loadAttempts s + 1\<rparr>)
                else (None, rt', s\<lparr>loadAttempts := loadAttempts s + 1\<rparr>))"
proof -
  from loadLeaflet_attempt_failed [of rt imp s] assms(2-4) obtain rt' where
    a: "loadLeaflet_attempt imp rt s = (Failed, rt', s\<lparr>loadAttempts := loadAttempts s + 1\<rparr>)"
    and w: "window_defined rt'" "window_L rt' = window_L rt"
    and t: "attempts_started rt' = attempts_started rt @ [loadAttempts s + 1]"
    and i: "imports_done rt' = imports_done rt + 1"
    by blast
  have u: "\<not> window_L_usable rt'"
    using assms(3) w(2) by (simp add: window_L_usable_def)
  have "loadLeaflet imp rt s =
          (if loadAttempts s + 1 < MAX_LOAD_ATTEMPTS
             then loadLeaflet imp rt' (s\<lparr>loadAttempts := loadAttempts s + 1\<rparr>)
           else (None, rt', s\<lparr>loadAttempts := loadAttempts s + 1\<rparr>))"
    using assms(1) a by (subst loadLeaflet.simps) simp
  with w u t i show ?thesis by blast
qed

lemma loadLeaflet_three_failures:
  assumes b: "platformBrowser s" and w: "window_defined rt" and u: "\<not> window_L_usable rt"
    and f: "\<forall>k. import_fails (imp k)" and z: "loadAttempts s = 0"
  shows "\<exists>rt'. loadLeaflet imp rt s = (None, rt', s\<lparr>loadAttempts := 3\<rparr>)
           \<and> attempts_started rt' = attempts_started rt @ [1, 2, 3]
           \<and> imports_done rt' = imports_done rt + 3"
proof -
  from f have f': "\<And>k. import_fails (imp k)" by blast
  from loadLeaflet_failed_step [of s rt imp] b w u f' z obtain rt1 where
    w1: "window_defined rt1" and u1: "\<not> window_L_usable rt1"
    and t1: "attempts_started rt1 = attempts_started rt @ [1]"
    and i1: "imports_done rt1 = imports_done rt + 1"
    and l1: "loadLeaflet imp rt s = loadLeaflet imp rt1 (s\<lparr>loadAttempts := 1\<rparr>)"
    by (auto simp: MAX_LOAD_ATTEMPTS_def numeral_2_eq_2 numeral_3_eq_3)
  have b1: "platformBrowser (s\<lparr>loadAttempts := 1\<rparr>)" using b by simp
  from loadLeaflet_failed_step [of "s\<lparr>loadAttempts := 1\<rparr>" rt1 imp] b1 w1 u1 f' obtain rt2 where
    w2: "window_defined rt2" and u2: "\<not> window_L_usable rt2"
    and t2: "attempts_started rt2 = attempts_started rt1 @ [2]"
    and i2: "imports_done rt2 = imports_done rt1 + 1"
    and l2: "loadLeaflet imp rt1 (s\<lparr>loadAttempts := 1\<rparr>) = loadLeaflet imp rt2 (s\<lparr>loadAttempts := 2\<rparr>)"
    by (auto simp: MAX_LOAD_ATTEMPTS_def numeral_2_eq_2 numeral_3_eq_3)
  have b2: "platformBrowser (s\<lparr>loadAttempts := 2\<rparr>)" using b by simp
  from loadLeaflet_failed_step [of "s\<lparr>loadAttempts := 2\<rparr>" rt2 imp] b2 w2 u2 f' obtain rt3 where
    t3: "attempts_started rt3 = attempts_started rt2 @ [3]"
    and i3: "imports_done rt3 = imports_done rt2 + 1"
    and l3: "loadLeaflet imp rt2 (s\<lparr>loadAttempts := 2\<rparr>) = (None, rt3, s\<lparr>loadAttempts := 3\<rparr>)"
    by (auto simp: MAX_LOAD_ATTEMPTS_def numeral_2_eq_2 numeral_3_eq_3)
  have "loadLeaflet imp rt s = (None, rt3, s\<lparr>loadAttempts := 3\<rparr>)"
    using l1 l2 l3 by simp
  moreover have "attempts_started rt3 = attempts_started rt @ [1, 2, 3]"
    using t1 t2 t3 by simp
  moreover have "imports_done rt3 = imports_done rt + 3"
    using i1 i2 i3 by simp
  ultimately show ?thesis by blast
qed

lemma loadLeaflet_success_step:
  assumes "platformBrowser s" and "window_defined rt" and "\<not> window_L_usable rt"
    and "imp (imports_done rt) = Imported i first second"
    and "first \<noteq> Missing" and "second \<noteq> Missing"
  shows "\<exists>rt'. loadLeaflet imp rt s =
                 (Some \<lparr>module_id = i, Map_ctor = second\<rparr>, rt',
                  s\<lparr>loadAttempts := loadAttempts s + 1,
                    L := Some \<lparr>module_id = i, Map_ctor = second\<rparr>\<rparr>)
           \<and> window_L rt' = Some \<lparr>module_id = i, Map_ctor = second\<rparr>
           \<and> attempts_started rt' = attempts_started rt @ [loadAttempts s + 1]
           \<and> imports_done rt' = imports_done rt + 1"
  using assms
  by (subst loadLeaflet.simps) (simp add: loadLeaflet_attempt_def Let_def window_L_usable_def)

lemma loadLeaflet_run:
  assumes "platformBrowser s" and "window_defined rt" and "\<not> window_L_usable rt"
    and "\<forall>j<k. import_fails (imp (imports_done rt + j))"
    and "imp (imports_done rt + k) = Imported i first second"
    and "first \<noteq> Missing" and "second \<noteq> Missing"
    and "loadAttempts s + k < MAX_LOAD_ATTEMPTS"
  shows "\<exists>rt'. loadLeaflet imp rt s =
                 (Some \<lparr>module_id = i, Map_ctor = second\<rparr>, rt',
                  s\<lparr>loadAttempts := loadAttempts s + k + 1,
                    L := Some \<lparr>module_id = i, Map_ctor = second\<rparr>\<rparr>)
           \<and> window_L rt' = Some \<lparr>module_id = i, Map_ctor = second\<rparr>
           \<and> attempts_started rt'
               = attempts_started rt @ [loadAttempts s + 1 ..< loadAttempts s + k + 2]
           \<and> imports_done rt' = imports_done rt + k + 1"
  using assms
proof (induction k arbitrary: rt s)
  case 0
  from loadLeaflet_success_step [of s rt imp i first second] "0.prems"
  show ?case by simp
next
  case (Suc k)
  let ?s1 = "s\<lparr>loadAttempts := loadAttempts s + 1\<rparr>"
  have f0: "import_fails (imp (imports_done rt))"
    using Suc.prems(4) by (auto dest: spec [of _ 0])
  from loadLeaflet_failed_step [of s rt imp] Suc.prems(1-3) f0 Suc.prems(8) obtain rt1 where
    w1: "window_defined rt1" and u1: "\<not> window_L_usable rt1"
    and t1: "attempts_started rt1 = attempts_started rt @ [loadAttempts s + 1]"
    and i1: "imports_done rt1 = imports_done rt + 1"
    and l1: "loadLeaflet imp rt s = loadLeaflet imp rt1 ?s1"
    by auto
  have b1: "platformBrowser ?s1" using Suc.prems(1) by simp
  have f1: "\<forall>j<k. import_fails (imp (imports_done rt1 + j))"
  proof (intro allI impI)
    fix j assume "j < k"
    then have "Suc j < Suc k" by simp
    with Suc.prems(4) have "import_fails (imp (imports_done rt + Suc j))" by blast
    then show "import_fails (imp (imports_done rt1 + j))" by (simp add: i1)
  qed
  have g1: "imp (imports_done rt1 + k) = Imported i first second"
    using Suc.prems(5) by (simp add: i1)
  have a1: "loadAttempts ?s1 + k < MAX_LOAD_ATTEMPTS"
    using Suc.prems(8) by simp
  from Suc.IH [OF b1 w1 u1 f1 g1 Suc.prems(6,7) a1] obtain rt' where
    r: "loadLeaflet imp rt1 ?s1 =
          (Some \<lparr>module_id = i, Map_ctor = second\<rparr>, rt',
           ?s1\<lparr>loadAttempts := loadAttempts ?s1 + k + 1,
              L := Some \<lparr>module_id = i, Map_ctor = second\<rparr>\<rparr>)"
    and wl: "window_L rt' = Some \<lparr>module_id = i, Map_ctor = second\<rparr>"
    and t: "attempts_started rt'
               = attempts_started rt1 @ [loadAttempts ?s1 + 1 ..< loadAttempts ?s1 + k + 2]"
    and im: "imports_done rt' = imports_done rt1 + k + 1"
    by blast
  have e1: "loadAttempts ?s1 + 1 = Suc (loadAttempts s + 1)"
    and e2: "loadAttempts ?s1 + k + 2 = loadAttempts s + Suc k + 2"
    by simp_all
  have c: "[loadAttempts s + 1 ..< loadAttempts s + Suc k + 2]
        = (loadAttempts s + 1) # [Suc (loadAttempts s + 1) ..< loadAttempts s + Suc k + 2]"
    by (rule upt_conv_Cons) simp
  have "attempts_started rt'
          = (attempts_started rt @ [loadAttempts s + 1])
            @ [Suc (loadAttempts s + 1) ..< loadAttempts s + Suc k + 2]"
    using t unfolding e1 e2 t1 .
  then have t': "attempts_started rt'
               = attempts_started rt @ [loadAttempts s + 1 ..< loadAttempts s + Suc k + 2]"
    unfolding c by (simp only: append_assoc append_Cons append_Nil)
  have "loadLeaflet imp rt s =
          (Some \<lparr>module_id = i, Map_ctor = second\<rparr>, rt',
           s\<lparr>loadAttempts := loadAttempts s + Suc k + 1,
             L := Some \<lparr>module_id = i, Map_ctor = second\<rparr>\<rparr>)"
    using l1 r by simp
  with wl t' im i1 show ?case by auto
qed

lemma loadLeaflet_three_failures_from:
  assumes b: "platformBrowser s" and w: "window_defined rt" and u: "\<not> window_L_usable rt"
    and f: "\<forall>j<3. import_fails (imp (imports_done rt + j))" and z: "loadAttempts s = 0"
  shows "\<exists>rt'. loadLeaflet imp rt s = (None, rt', s\<lparr>loadAttempts := 3\<rparr>)
           \<and> window_L rt' = window_L rt
           \<and> attempts_started rt' = attempts_started rt @ [1, 2, 3]
           \<and> imports_done rt' = imports_done rt + 3"
proof -
  from f have f0: "import_fails (imp (imports_done rt))"
    and f1: "import_fails (imp (imports_done rt + 1))"
    and f2: "import_fails (imp (imports_done rt + 2))"
    by (auto dest: spec [of _ 0] spec [of _ 1] spec [of _ 2])
  from loadLeaflet_failed_step [of s rt imp] b w u f0 z obtain rt1 where
    w1: "window_defined rt1" and u1: "\<not> window_L_usable rt1"
    and wl1: "window_L rt1 = window_L rt"
    and t1: "attempts_started rt1 = attempts_started rt @ [1]"
    and i1: "imports_done rt1 = imports_done rt + 1"
    and l1: "loadLeaflet imp rt s = loadLeaflet imp rt1 (s\<lparr>loadAttempts := 1\<rparr>)"
    by (auto simp: MAX_LOAD_ATTEMPTS_def numeral_2_eq_2 numeral_3_eq_3)
  have b1: "platformBrowser (s\<lparr>loadAttempts := 1\<rparr>)" using b by simp
  have f1': "import_fails (imp (imports_done rt1))" using f1 i1 by simp
  from loadLeaflet_failed_step [of "s\<lparr>loadAttempts := 1\<rparr>" rt1 imp] b1 w1 u1 f1' obtain rt2 where
    w2: "window_defined rt2" and u2: "\<not> window_L_usable rt2"
    and wl2: "window_L rt2 = window_L rt1"
    and t2: "attempts_started rt2 = attempts_started rt1 @ [2]"
    and i2: "imports_done rt2 = imports_done rt1 + 1"
    and l2: "loadLeaflet imp rt1 (s\<lparr>loadAttempts := 1\<rparr>) = loadLeaflet imp rt2 (s\<lparr>loadAttempts := 2\<rparr>)"
    by (auto simp: MAX_LOAD_ATTEMPTS_def numeral_2_eq_2 numeral_3_eq_3)
  have b2: "platformBrowser (s\<lparr>loadAttempts := 2\<rparr>)" using b by simp
  have f2': "import_fails (imp (imports_done rt2))" using f2 i1 i2 by (simp add: numeral_2_eq_2)
  from loadLeaflet_failed_step [of "s\<lparr>loadAttempts := 2\<rparr>" rt2 imp] b2 w2 u2 f2' obtain rt3 where
    wl3: "window_L rt3 = window_L rt2"
    and t3: "attempts_started rt3 = attempts_started rt2 @ [3]"
    and i3: "imports_done rt3 = imports_done rt2 + 1"
    and l3: "loadLeaflet imp rt2 (s\<lparr>loadAttempts := 2\<rparr>) = (None, rt3, s\<lparr>loadAttempts := 3\<rparr>)"
    by (auto simp: MAX_LOAD_ATTEMPTS_def numeral_2_eq_2 numeral_3_eq_3)
  have "loadLeaflet imp rt s = (None, rt3, s\<lparr>loadAttempts := 3\<rparr>)"
    using l1 l2 l3 by simp
  moreover have "attempts_started rt3 = attempts_started rt @ [1, 2, 3]"
    using t1 t2 t3 by simp
  moreover have "imports_done rt3 = imports_done rt + 3"
    using i1 i2 i3 by simp
  moreover have "window_L rt3 = window_L rt"
    using wl1 wl2 wl3 by simp
  ultimately show ?thesis by blast
qed

lemma loadLeaflet_keeps_promise:
  "loadLeaflet imp rt (s\<lparr>leafletLoadPromise := p\<rparr>) =
     (case loadLeaflet imp rt s of (r, rt', s') \<Rightarrow> (r, rt', s'\<lparr>leafletLoadPromise := p\<rparr>))"
proof (induction imp rt s rule: loadLeaflet.induct)
  case (1 imp rt s)
  have att: "loadLeaflet_attempt imp rt (s\<lparr>leafletLoadPromise := p\<rparr>) =
      (case loadLeaflet_attempt imp rt s of (r, rt', s') \<Rightarrow> (r, rt', s'\<lparr>leafletLoadPromise := p\<rparr>))"
    by (simp add: loadLeaflet_attempt_def Let_def split: import_outcome.splits)
  show ?case
  proof (cases "platformBrowser s")
    case False
    then show ?thesis by (simp add: loadLeaflet.simps)
  next
    case True
    obtain r rt' s' where a: "loadLeaflet_attempt imp rt s = (r, rt', s')"
      by (cases "loadLeaflet_attempt imp rt s") auto
    show ?thesis
    proof (cases r)
      case (Settled v)
      with True a att show ?thesis
        by (simp add: loadLeaflet.simps [of imp rt s]
            loadLeaflet.simps [of imp rt "s\<lparr>leafletLoadPromise := p\<rparr>"])
    next
      case Failed
      show ?thesis
      proof (cases "loadAttempts s' < MAX_LOAD_ATTEMPTS")
        case less: True
        from "1.IH" [OF _ a [symmetric] _ refl less] True Failed
        have "loadLeaflet imp rt' (s'\<lparr>leafletLoadPromise := p\<rparr>) =
          (case loadLeaflet imp rt' s' of (r, rt'', s'') \<Rightarrow> (r, rt'', s''\<lparr>leafletLoadPromise := p\<rparr>))"
          by simp
        with True a att Failed less show ?thesis
          by (simp add: loadLeaflet.simps [of imp rt s]
              loadLeaflet.simps [of imp rt "s\<lparr>leafletLoadPromise := p\<rparr>"])
      next
        case False
        with True a att Failed show ?thesis
          by (simp add: loadLeaflet.simps [of imp rt s]
              loadLeaflet.simps [of imp rt "s\<lparr>leafletLoadPromise := p\<rparr>"])
      qed
    qed
  qed
qed

lemma loadLeaflet_first_attempt:
  "platformBrowser s \<Longrightarrow>
     \<exists>ns. attempts_started (fst (snd (loadLeaflet imp rt s)))
            = attempts_started rt @ (loadAttempts s + 1) # ns"
proof (induction imp rt s rule: loadLeaflet.induct)
  case (1 imp rt s)
  obtain r rt' s' where a: "loadLeaflet_attempt imp rt s = (r, rt', s')"
    by (cases "loadLeaflet_attempt imp rt s") auto
  note f = loadLeaflet_attempt_facts [OF a]
  show ?case
  proof (cases "r = Failed \<and> loadAttempts s' < MAX_LOAD_ATTEMPTS")
    case True
    then have r: "r = Failed" and less: "loadAttempts s' < MAX_LOAD_ATTEMPTS" by auto
    have "platformBrowser s'" using f(2) "1.prems" by simp
    from "1.IH" [OF _ a [symmetric] _ refl less this] "1.prems" r
    obtain ns where "attempts_started (fst (snd (loadLeaflet imp rt' s')))
            = attempts_started rt' @ (loadAttempts s' + 1) # ns"
      by auto
    moreover have "loadLeaflet imp rt s = loadLeaflet imp rt' s'"
      using "1.prems" a r less by (subst loadLeaflet.simps) simp
    ultimately show ?thesis using f(1) by simp
  next
    case False
    then have "fst (snd (loadLeaflet imp rt s)) = rt'"
      using "1.prems" a by (subst loadLeaflet.simps) (auto split: attempt_result.splits)
    then show ?thesis using f(1) by simp
  qed
qed

text \<open>
  C3: in a browser whose \<^verbatim>\<open>window.L\<close> offers no \<^verbatim>\<open>Map\<close> constructor, when every
  import ends rejected or without the constructor, \<^verbatim>\<open>loadLeaflet\<close> started with the
  attempt counter at 0 (where both of its callers set it) announces the attempts 1, 2
  and 3, imports three times and returns \<^verbatim>\<open>null\<close>; there is no fourth attempt. The same
  holds for \<^verbatim>\<open>getLeaflet(true)\<close> from any state of the service, and for
  \<^verbatim>\<open>ensureLeafletLoaded()\<close> whenever the handle it finds is \<^verbatim>\<open>null\<close> or lacks the
  constructor.
\<close>

theorem loadLeaflet_three_attempts:
  assumes "platformBrowser s" and "window_defined rt" and "\<not> window_L_usable rt"
    and "\<forall>k. import_fails (imp k)"
  shows "(loadAttempts s = 0 \<longrightarrow>
           fst (loadLeaflet imp rt s) = None
           \<and> attempts_started (fst (snd (loadLeaflet imp rt s))) = attempts_started rt @ [1, 2, 3]
           \<and> imports_done (fst (snd (loadLeaflet imp rt s))) = imports_done rt + 3
           \<and> loadAttempts (snd (snd (loadLeaflet imp rt s))) = 3)
         \<and> fst (getLeaflet imp True rt s) = None
         \<and> attempts_started (fst (snd (getLeaflet imp True rt s))) = attempts_started rt @ [1, 2, 3]
         \<and> imports_done (fst (snd (getLeaflet imp True rt s))) = imports_done rt + 3
         \<and> loadAttempts (snd (snd (getLeaflet imp True rt s))) = 3
         \<and> ((case fst (getLeaflet imp False rt s) of None \<Rightarrow> True | Some l \<Rightarrow> Map_ctor l = Missing)
              \<longrightarrow>
              fst (ensureLeafletLoaded imp rt s) = None
              \<and> attempts_started (fst (snd (ensureLeafletLoaded imp rt s)))
                  = attempts_started rt @ [1, 2, 3]
              \<and> imports_done (fst (snd (ensureLeafletLoaded imp rt s))) = imports_done rt + 3
              \<and> loadAttempts (snd (snd (ensureLeafletLoaded imp rt s))) = 3)"
proof -
  have one: "fst (loadLeaflet imp rt s) = None
           \<and> attempts_started (fst (snd (loadLeaflet imp rt s))) = attempts_started rt @ [1, 2, 3]
           \<and> imports_done (fst (snd (loadLeaflet imp rt s))) = imports_done rt + 3
           \<and> loadAttempts (snd (snd (loadLeaflet imp rt s))) = 3"
    if "loadAttempts s = 0"
    using loadLeaflet_three_failures [OF assms that] by auto
  have b0: "platformBrowser (s\<lparr>L := None, loadAttempts := 0\<rparr>)"
    and z0: "loadAttempts (s\<lparr>L := None, loadAttempts := 0\<rparr>) = 0"
    using assms(1) by simp_all
  from loadLeaflet_three_failures [OF b0 assms(2-4) z0] obtain rt' where
    "loadLeaflet imp rt (s\<lparr>L := None, loadAttempts := 0\<rparr>)
       = (None, rt', s\<lparr>L := None, loadAttempts := 0, loadAttempts := 3\<rparr>)"
    and "attempts_started rt' = attempts_started rt @ [1, 2, 3]"
    and "imports_done rt' = imports_done rt + 3"
    by auto
  then have two: "fst (getLeaflet imp True rt s) = None
         \<and> attempts_started (fst (snd (getLeaflet imp True rt s))) = attempts_started rt @ [1, 2, 3]
         \<and> imports_done (fst (snd (getLeaflet imp True rt s))) = imports_done rt + 3
         \<and> loadAttempts (snd (snd (getLeaflet imp True rt s))) = 3"
    using assms(1) by (simp add: getLeaflet_def)
  have three: "fst (ensureLeafletLoaded imp rt s) = None
              \<and> attempts_started (fst (snd (ensureLeafletLoaded imp rt s)))
                  = attempts_started rt @ [1, 2, 3]
              \<and> imports_done (fst (snd (ensureLeafletLoaded imp rt s))) = imports_done rt + 3
              \<and> loadAttempts (snd (snd (ensureLeafletLoaded imp rt s))) = 3"
    if "case fst (getLeaflet imp False rt s) of None \<Rightarrow> True | Some l \<Rightarrow> Map_ctor l = Missing"
  proof -
    have "ensureLeafletLoaded imp rt s = getLeaflet imp True rt s"
      using assms(1) that by (simp add: ensureLeafletLoaded_def getLeaflet_def)
    with two show ?thesis by simp
  qed
  from one two three show ?thesis by blast
qed

theorem loadLeaflet_three_attempts_witness:
  "fst (getLeaflet (\<lambda>k. if k = 1 then ImportRejected SyntaxError else Imported k Missing Missing)
          True newRuntime readyService) = None
   \<and> attempts_started (fst (snd (getLeaflet
          (\<lambda>k. if k = 1 then ImportRejected SyntaxError else Imported k Missing Missing)
          True newRuntime readyService))) = [1, 2, 3]
   \<and> imports_done (fst (snd (getLeaflet
          (\<lambda>k. if k = 1 then ImportRejected SyntaxError else Imported k Missing Missing)
          True newRuntime readyService))) = 3"
proof -
  have b: "platformBrowser readyService" by (simp add: readyService_def)
  have w: "window_defined newRuntime" by (simp add: newRuntime_def)
  have u: "\<not> window_L_usable newRuntime" by (simp add: newRuntime_def window_L_usable_def)
  have f: "\<forall>k. import_fails (if k = 1 then ImportRejected SyntaxError else Imported k Missing Missing)"
    by (simp add: import_fails_def)
  from loadLeaflet_three_attempts [OF b w u f]
  show ?thesis by (simp add: newRuntime_def)
qed

text \<open>
  C8, as the claim states it, fails: \<^verbatim>\<open>getLeaflet(true)\<close> does not clear the shared
  \<^verbatim>\<open>window.L\<close> slot. When that slot holds a handle with a \<^verbatim>\<open>Map\<close> constructor, the
  forced reload returns this very handle at attempt 1 and imports nothing, whatever the
  import would have given.
\<close>

theorem forceReload_reuses_window_L:
  "fst (getLeaflet (\<lambda>k. Imported 1 Callable Callable) True
          (newRuntime\<lparr>window_L := Some sampleLeaflet\<rparr>) readyService) = Some sampleLeaflet
   \<and> window_L (fst (snd (getLeaflet (\<lambda>k. Imported 1 Callable Callable) True
          (newRuntime\<lparr>window_L := Some sampleLeaflet\<rparr>) readyService))) = Some sampleLeaflet
   \<and> imports_done (fst (snd (getLeaflet (\<lambda>k. Imported 1 Callable Callable) True
          (newRuntime\<lparr>window_L := Some sampleLeaflet\<rparr>) readyService))) = 0
   \<and> attempts_started (fst (snd (getLeaflet (\<lambda>k. Imported 1 Callable Callable) True
          (newRuntime\<lparr>window_L := Some sampleLeaflet\<rparr>) readyService))) = [1]"
  by (simp add: getLeaflet_def loadLeaflet.simps loadLeaflet_attempt_def Let_def
      window_L_usable_def newRuntime_def readyService_def sampleLeaflet_def)

text \<open>
  C8, amended: in a browser, \<^verbatim>\<open>getLeaflet(true)\<close> clears the memoisation the service
  itself holds: what it returns and the state it leaves do not depend on the handle, the
  attempt counter or the load promise it held before, and the load it starts announces
  attempt 1 first. It does not clear \<^verbatim>\<open>window.L\<close>: when that slot holds a handle with a
  \<^verbatim>\<open>Map\<close> constructor, the load returns that handle at attempt 1 without importing and
  leaves the slot as it is. Only otherwise does it repeat the import cycle: it imports
  once per attempt, numbered from 1, until a module comes with its \<^verbatim>\<open>Map\<close>
  constructor at both checks; that module is returned, written to \<^verbatim>\<open>window.L\<close> and
  \<^verbatim>\<open>this.L\<close>, and resolves the new promise. After three failed imports the result
  is \<^verbatim>\<open>null\<close> and \<^verbatim>\<open>window.L\<close> is as before. Without a \<^verbatim>\<open>window\<close> the result is
  \<^verbatim>\<open>null\<close> at attempt 1.
\<close>

theorem forceReload_clears_instance_memo:
  assumes "platformBrowser s"
  shows "getLeaflet imp True rt (s\<lparr>L := l, loadAttempts := n, leafletLoadPromise := p\<rparr>)
           = getLeaflet imp True rt s
         \<and> (\<exists>ns. attempts_started (fst (snd (getLeaflet imp True rt s)))
                   = attempts_started rt @ 1 # ns)
         \<and> leafletLoadPromise (snd (snd (getLeaflet imp True rt s)))
           = Some (fst (getLeaflet imp True rt s))
         \<and> (window_defined rt \<and> window_L_usable rt \<longrightarrow>
              getLeaflet imp True rt s
              = (window_L rt,
                 rt\<lparr>attempts_started := attempts_started rt @ [1]\<rparr>,
                 s\<lparr>L := window_L rt, loadAttempts := 1,
                   leafletLoadPromise := Some (window_L rt)\<rparr>))
         \<and> (window_defined rt \<and> \<not> window_L_usable rt \<and> k < MAX_LOAD_ATTEMPTS
              \<and> (\<forall>j<k. import_fails (imp (imports_done rt + j)))
              \<and> imp (imports_done rt + k) = Imported i first second
              \<and> first \<noteq> Missing \<and> second \<noteq> Missing \<longrightarrow>
              fst (getLeaflet imp True rt s) = Some \<lparr>module_id = i, Map_ctor = second\<rparr>
              \<and> window_L (fst (snd (getLeaflet imp True rt s)))
                  = Some \<lparr>module_id = i, Map_ctor = second\<rparr>
              \<and> attempts_started (fst (snd (getLeaflet imp True rt s)))
                  = attempts_started rt @ [1 ..< k + 2]
              \<and> imports_done (fst (snd (getLeaflet imp True rt s))) = imports_done rt + k + 1
              \<and> snd (snd (getLeaflet imp True rt s))
                  = s\<lparr>L := Some \<lparr>module_id = i, Map_ctor = second\<rparr>, loadAttempts := k + 1,
                      leafletLoadPromise := Some (Some \<lparr>module_id = i, Map_ctor = second\<rparr>)\<rparr>)
         \<and> (window_defined rt \<and> \<not> window_L_usable rt
              \<and> (\<forall>j<3. import_fails (imp (imports_done rt + j))) \<longrightarrow>
              fst (getLeaflet imp True rt s) = None
              \<and> window_L (fst (snd (getLeaflet imp True rt s))) = window_L rt
              \<and> attempts_started (fst (snd (getLeaflet imp True rt s)))
                  = attempts_started rt @ [1, 2, 3]
              \<and> imports_done (fst (snd (getLeaflet imp True rt s))) = imports_done rt + 3
              \<and> snd (snd (getLeaflet imp True rt s))
                  = s\<lparr>L := None, loadAttempts := 3, leafletLoadPromise := Some None\<rparr>)
         \<and> (\<not> window_defined rt \<longrightarrow>
              getLeaflet imp True rt s
              = (None, rt\<lparr>attempts_started := attempts_started rt @ [1]\<rparr>,
                 s\<lparr>L := None, loadAttempts := 1, leafletLoadPromise := Some None\<rparr>))"
proof -
  let ?s0 = "s\<lparr>L := None, loadAttempts := 0\<rparr>"
  obtain r rt' s' where ll: "loadLeaflet imp rt ?s0 = (r, rt', s')"
    by (cases "loadLeaflet imp rt ?s0") auto
  have e: "loadLeaflet imp rt
             (s\<lparr>L := l, loadAttempts := n, leafletLoadPromise := p, L := None, loadAttempts := 0\<rparr>)
           = (r, rt', s'\<lparr>leafletLoadPromise := p\<rparr>)"
  proof -
    have eq: "s\<lparr>L := l, loadAttempts := n, leafletLoadPromise := p, L := None, loadAttempts := 0\<rparr>
          = ?s0\<lparr>leafletLoadPromise := p\<rparr>"
      by (cases s) simp
    show ?thesis
      unfolding eq loadLeaflet_keeps_promise ll by simp
  qed
  have a: "getLeaflet imp True rt (s\<lparr>L := l, loadAttempts := n, leafletLoadPromise := p\<rparr>)
           = getLeaflet imp True rt s"
    using assms ll e by (simp add: getLeaflet_def)
  have b0: "platformBrowser ?s0" and z0: "loadAttempts ?s0 = 0" using assms by simp_all
  from loadLeaflet_first_attempt [OF b0, of imp rt] ll
  have b: "\<exists>ns. attempts_started (fst (snd (getLeaflet imp True rt s)))
                   = attempts_started rt @ 1 # ns"
    using assms by (simp add: getLeaflet_def)
  have c: "leafletLoadPromise (snd (snd (getLeaflet imp True rt s)))
           = Some (fst (getLeaflet imp True rt s))"
    using assms ll by (simp add: getLeaflet_def)
  have d: "getLeaflet imp True rt s
              = (window_L rt,
                 rt\<lparr>attempts_started := attempts_started rt @ [1]\<rparr>,
                 s\<lparr>L := window_L rt, loadAttempts := 1,
                   leafletLoadPromise := Some (window_L rt)\<rparr>)"
    if "window_defined rt" and "window_L_usable rt"
    using assms that
    by (simp add: getLeaflet_def loadLeaflet.simps [of imp rt ?s0] loadLeaflet_attempt_def Let_def
        window_L_usable_def)
  have f: "fst (getLeaflet imp True rt s) = Some \<lparr>module_id = i, Map_ctor = second\<rparr>
              \<and> window_L (fst (snd (getLeaflet imp True rt s)))
                  = Some \<lparr>module_id = i, Map_ctor = second\<rparr>
              \<and> attempts_started (fst (snd (getLeaflet imp True rt s)))
                  = attempts_started rt @ [1 ..< k + 2]
              \<and> imports_done (fst (snd (getLeaflet imp True rt s))) = imports_done rt + k + 1
              \<and> snd (snd (getLeaflet imp True rt s))
                  = s\<lparr>L := Some \<lparr>module_id = i, Map_ctor = second\<rparr>, loadAttempts := k + 1,
                      leafletLoadPromise := Some (Some \<lparr>module_id = i, Map_ctor = second\<rparr>)\<rparr>"
    if w: "window_defined rt" and u: "\<not> window_L_usable rt" and k: "k < MAX_LOAD_ATTEMPTS"
      and fl: "\<forall>j<k. import_fails (imp (imports_done rt + j))"
      and ok: "imp (imports_done rt + k) = Imported i first second"
      and m: "first \<noteq> Missing" "second \<noteq> Missing"
  proof -
    have k0: "loadAttempts ?s0 + k < MAX_LOAD_ATTEMPTS" using k by simp
    from loadLeaflet_run [OF b0 w u fl ok m k0] obtain rt2 where
      "loadLeaflet imp rt ?s0 =
          (Some \<lparr>module_id = i, Map_ctor = second\<rparr>, rt2,
           ?s0\<lparr>loadAttempts := loadAttempts ?s0 + k + 1,
              L := Some \<lparr>module_id = i, Map_ctor = second\<rparr>\<rparr>)"
      and "window_L rt2 = Some \<lparr>module_id = i, Map_ctor = second\<rparr>"
      and "attempts_started rt2
               = attempts_started rt @ [loadAttempts ?s0 + 1 ..< loadAttempts ?s0 + k + 2]"
      and "imports_done rt2 = imports_done rt + k + 1"
      by blast
    then show ?thesis
      using assms by (simp add: getLeaflet_def)
  qed
  have g: "fst (getLeaflet imp True rt s) = None
              \<and> window_L (fst (snd (getLeaflet imp True rt s))) = window_L rt
              \<and> attempts_started (fst (snd (getLeaflet imp True rt s)))
                  = attempts_started rt @ [1, 2, 3]
              \<and> imports_done (fst (snd (getLeaflet imp True rt s))) = imports_done rt + 3
              \<and> snd (snd (getLeaflet imp True rt s))
                  = s\<lparr>L := None, loadAttempts := 3, leafletLoadPromise := Some None\<rparr>"
    if w: "window_defined rt" and u: "\<not> window_L_usable rt"
      and fl: "\<forall>j<3. import_fails (imp (imports_done rt + j))"
  proof -
    from loadLeaflet_three_failures_from [OF b0 w u fl z0] obtain rt2 where
      "loadLeaflet imp rt ?s0 = (None, rt2, ?s0\<lparr>loadAttempts := 3\<rparr>)"
      and "window_L rt2 = window_L rt"
      and "attempts_started rt2 = attempts_started rt @ [1, 2, 3]"
      and "imports_done rt2 = imports_done rt + 3"
      by blast
    then show ?thesis
      using assms by (simp add: getLeaflet_def)
  qed
  have h: "getLeaflet imp True rt s
              = (None, rt\<lparr>attempts_started := attempts_started rt @ [1]\<rparr>,
                 s\<lparr>L := None, loadAttempts := 1, leafletLoadPromise := Some None\<rparr>)"
    if "\<not> window_defined rt"
    using assms that
    by (simp add: getLeaflet_def loadLeaflet.simps [of imp rt ?s0] loadLeaflet_attempt_def Let_def)
  from a b c d f g h show ?thesis by blast
qed

theorem forceReload_clears_instance_memo_witness:
  "getLeaflet (\<lambda>k. if k = 0 then ImportRejected SyntaxError else Imported 1 Callable Callable) True
      newRuntime
      (readyService\<lparr>L := None, loadAttempts := 3, leafletLoadPromise := Some None\<rparr>)
   = getLeaflet (\<lambda>k. if k = 0 then ImportRejected SyntaxError else Imported 1 Callable Callable)
      True newRuntime readyService
   \<and> fst (getLeaflet (\<lambda>k. if k = 0 then ImportRejected SyntaxError else Imported 1 Callable Callable)
        True (newRuntime\<lparr>window_L := Some sampleLeaflet\<rparr>) readyService) = Some sampleLeaflet
   \<and> fst (getLeaflet (\<lambda>k. if k = 0 then ImportRejected SyntaxError else Imported 1 Callable Callable)
        True newRuntime readyService) = Some \<lparr>module_id = 1, Map_ctor = Callable\<rparr>
   \<and> attempts_started (fst (snd (getLeaflet
        (\<lambda>k. if k = 0 then ImportRejected SyntaxError else Imported 1 Callable Callable)
        True newRuntime readyService))) = [1, 2]
   \<and> imports_done (fst (snd (getLeaflet
        (\<lambda>k. if k = 0 then ImportRejected SyntaxError else Imported 1 Callable Callable)
        True newRuntime readyService))) = 2
   \<and> window_L (fst (snd (getLeaflet
        (\<lambda>k. if k = 0 then ImportRejected SyntaxError else Imported 1 Callable Callable)
        True newRuntime readyService))) = Some \<lparr>module_id = 1, Map_ctor = Callable\<rparr>"
proof -
  let ?imp = "\<lambda>k::nat. if k = 0 then ImportRejected SyntaxError else Imported 1 Callable Callable"
  have b: "platformBrowser readyService" by (simp add: readyService_def)
  have w: "window_defined (newRuntime\<lparr>window_L := Some sampleLeaflet\<rparr>)
           \<and> window_L_usable (newRuntime\<lparr>window_L := Some sampleLeaflet\<rparr>)"
    by (simp add: newRuntime_def window_L_usable_def sampleLeaflet_def)
  have n: "window_defined newRuntime \<and> \<not> window_L_usable newRuntime
           \<and> (1::nat) < MAX_LOAD_ATTEMPTS
           \<and> (\<forall>j<1. import_fails (?imp (imports_done newRuntime + j)))
           \<and> ?imp (imports_done newRuntime + 1) = Imported 1 Callable Callable
           \<and> Callable \<noteq> Missing"
    by (simp add: newRuntime_def window_L_usable_def MAX_LOAD_ATTEMPTS_def import_fails_def)
  from forceReload_clears_instance_memo [OF b, where imp = ?imp
      and rt = newRuntime and l = None and n = 3 and p = "Some None" and k = 1 and i = 1
      and first = Callable and second = Callable]
    forceReload_clears_instance_memo [OF b, where imp = ?imp
      and rt = "newRuntime\<lparr>window_L := Some sampleLeaflet\<rparr>"] w n
  show ?thesis by (simp add: newRuntime_def)
qed

section \<open>Markers: removal on pan, refresh on zoom, and duplicates\<close>

lemma markers_removeMarker: "markers (removeMarker m s) = remove1 m (markers s)"
  by (simp add: removeMarker_def spliceOut_def Let_def split: option.splits)

lemma markers_fold_removeMarker:
  "markers (fold removeMarker rem s) = fold remove1 rem (markers s)"
  by (induction rem arbitrary: s) (simp_all add: markers_removeMarker)

lemma fold_remove1_filter:
  assumes "\<forall>k \<in> set ks. c k"
  shows "fold remove1 (filter (\<lambda>m. \<not> c m) ms) (ks @ ms) = ks @ filter c ms"
  using assms
proof (induction ms arbitrary: ks)
  case Nil
  then show ?case by simp
next
  case (Cons x xs)
  show ?case
  proof (cases "c x")
    case True
    have "\<forall>k \<in> set (ks @ [x]). c k"
      using Cons.prems True by simp
    from Cons.IH [OF this] True show ?thesis by simp
  next
    case False
    with Cons.prems have "x \<notin> set ks" by auto
    then have "remove1 x (ks @ x # xs) = ks @ xs"
      by (simp add: remove1_append)
    with Cons.IH [OF Cons.prems] False show ?thesis by simp
  qed
qed

lemma ids_removeMarker:
  assumes "i \<in> markerLocationIds s" and "markerToLocationId s m \<noteq> Some i"
  shows "i \<in> markerLocationIds (removeMarker m s)"
  using assms by (auto simp: removeMarker_def Let_def split: option.splits)

lemma entry_removeMarker:
  "markerToLocationId (removeMarker m s) r = Some i \<Longrightarrow> markerToLocationId s r = Some i"
  by (auto simp: removeMarker_def Let_def split: option.splits if_splits)

lemma entry_removeMarker_other:
  "m \<noteq> r \<Longrightarrow> markerToLocationId (removeMarker m s) r = markerToLocationId s r"
  by (auto simp: removeMarker_def Let_def split: option.splits)

lemma ids_fold_removeMarker:
  assumes "i \<in> markerLocationIds s"
    and "\<forall>m \<in> set rem. markerToLocationId s m \<noteq> Some i"
  shows "i \<in> markerLocationIds (fold removeMarker rem s)"
  using assms
proof (induction rem arbitrary: s)
  case Nil
  then show ?case by simp
next
  case (Cons x rem)
  have "i \<in> markerLocationIds (removeMarker x s)"
    using Cons.prems by (simp add: ids_removeMarker)
  moreover have "\<forall>m \<in> set rem. markerToLocationId (removeMarker x s) m \<noteq> Some i"
    using Cons.prems(2) entry_removeMarker [of x s] by auto
  ultimately show ?case using Cons.IH by simp
qed

lemma entry_fold_removeMarker:
  "r \<notin> set rem \<Longrightarrow> markerToLocationId (fold removeMarker rem s) r = markerToLocationId s r"
  by (induction rem arbitrary: s) (auto simp: entry_removeMarker_other)

lemma cluster_removeMarker:
  "markerClusterGroup (removeMarker m s) = map_option (removeLayer m) (markerClusterGroup s)"
  by (simp add: removeMarker_def Let_def split: option.splits)

lemma layer_removeMarker:
  "markersLayer (removeMarker m s) =
     (if markerClusterGroup s = None then map_option (removeLayer m) (markersLayer s)
      else markersLayer s)"
  by (simp add: removeMarker_def Let_def split: option.splits)

lemma filter_removeLayer:
  "filter (\<lambda>y. y \<notin> set rem) (removeLayer x g) = filter (\<lambda>y. y \<notin> set (x # rem)) g"
  by (induction g) (auto simp: removeLayer_def)

lemma cluster_fold_removeMarker:
  "markerClusterGroup (fold removeMarker rem s) =
     map_option (filter (\<lambda>x. x \<notin> set rem)) (markerClusterGroup s)"
proof (induction rem arbitrary: s)
  case Nil
  then show ?case by (simp add: option.map_ident)
next
  case (Cons x rem)
  show ?case
    using Cons.IH [of "removeMarker x s"]
    by (simp add: cluster_removeMarker option.map_comp comp_def filter_removeLayer)
qed

lemma layer_fold_removeMarker:
  "markersLayer (fold removeMarker rem s) =
     (if markerClusterGroup s = None
        then map_option (filter (\<lambda>x. x \<notin> set rem)) (markersLayer s)
      else markersLayer s)"
proof (induction rem arbitrary: s)
  case Nil
  then show ?case by (simp add: option.map_ident)
next
  case (Cons x rem)
  show ?case
    using Cons.IH [of "removeMarker x s"]
    by (simp add: layer_removeMarker cluster_removeMarker option.map_comp comp_def
        filter_removeLayer)
qed

lemma pan_result:
  assumes "\<not> isZoomChange ev" and "map_handle s = Some mp" and "getBounds mp = Some b"
  shows "onMapMove ev s = fold removeMarker (filter (\<lambda>m. \<not> contains b m) (markers s)) s"
  using assms by (simp add: onMapMove_def clearMarkers_def)

text \<open>
  C5 fails on the code: when two markers are registered under one id, one inside the
  bounds and one outside, a pan removes the outer one and with it the id from
  \<^verbatim>\<open>markerLocationIds\<close>, although the inner marker stays in place with its entry in
  \<^verbatim>\<open>markerToLocationId\<close>. Two markers share an id when a place is added twice before
  its weather arrives; here the two Overpass replies give the place at latitude 40 and
  at latitude 60.
\<close>

theorem pan_unregisters_shared_id:
  "map (\<lambda>m. (marker_ref m, lat m, contains spainBounds m))
     (markers (weatherArrivals
        [(0, sampleClock, HttpReturns sampleResponse), (0, sampleClock, HttpReturns sampleResponse)]
        (addMarkersForLocations [placeAt ''1'' 60]
          (addMarkersForLocations [placeAt ''1'' 40] readyService))))
   = [(0, 40, True), (1, 60, False)]
   \<and> markerLocationIds (weatherArrivals
        [(0, sampleClock, HttpReturns sampleResponse), (0, sampleClock, HttpReturns sampleResponse)]
        (addMarkersForLocations [placeAt ''1'' 60]
          (addMarkersForLocations [placeAt ''1'' 40] readyService))) = {''1''}
   \<and> map (\<lambda>m. (marker_ref m, lat m)) (markers (reconcile (boundsEvent spainBounds False) (Body (Some [])) (weatherArrivals
        [(0, sampleClock, HttpReturns sampleResponse), (0, sampleClock, HttpReturns sampleResponse)]
        (addMarkersForLocations [placeAt ''1'' 60]
          (addMarkersForLocations [placeAt ''1'' 40] readyService))))) = [(0, 40)]
   \<and> map (markerToLocationId (reconcile (boundsEvent spainBounds False) (Body (Some [])) (weatherArrivals
        [(0, sampleClock, HttpReturns sampleResponse), (0, sampleClock, HttpReturns sampleResponse)]
        (addMarkersForLocations [placeAt ''1'' 60]
          (addMarkersForLocations [placeAt ''1'' 40] readyService)))))
      (markers (reconcile (boundsEvent spainBounds False) (Body (Some [])) (weatherArrivals
        [(0, sampleClock, HttpReturns sampleResponse), (0, sampleClock, HttpReturns sampleResponse)]
        (addMarkersForLocations [placeAt ''1'' 60]
          (addMarkersForLocations [placeAt ''1'' 40] readyService))))) = [Some ''1'']
   \<and> markerLocationIds (reconcile (boundsEvent spainBounds False) (Body (Some [])) (weatherArrivals
        [(0, sampleClock, HttpReturns sampleResponse), (0, sampleClock, HttpReturns sampleResponse)]
        (addMarkersForLocations [placeAt ''1'' 60]
          (addMarkersForLocations [placeAt ''1'' 40] readyService)))) = {}"
  by code_simp

text \<open>
  What the function given to \<^verbatim>\<open>switchMap\<close> does for a pan-tagged value in general:
  with the map and its bounds at hand, exactly the markers whose position lies outside
  the current bounds are removed, from \<^verbatim>\<open>this.markers\<close> and from the layer group in
  use. Every marker within the bounds stays: the same object remains, its entry in
  \<^verbatim>\<open>markerToLocationId\<close> stays, and its id stays in \<^verbatim>\<open>markerLocationIds\<close> as long
  as no removed marker is registered under the same id. Without a map or without bounds
  nothing changes.
\<close>

theorem pan_keeps_markers_in_bounds:
  assumes pan: "\<not> isZoomChange ev"
  shows "(map_handle s = Some mp \<and> getBounds mp = Some b \<longrightarrow>
           markers (onMapMove ev s) = filter (contains b) (markers s)
           \<and> markerClusterGroup (onMapMove ev s)
               = map_option (filter (\<lambda>x. x \<notin> {m \<in> set (markers s). \<not> contains b m}))
                   (markerClusterGroup s)
           \<and> markersLayer (onMapMove ev s)
               = (if markerClusterGroup s = None
                    then map_option (filter (\<lambda>x. x \<notin> {m \<in> set (markers s). \<not> contains b m}))
                           (markersLayer s)
                  else markersLayer s)
           \<and> (\<forall>m \<in> set (markers s). contains b m \<longrightarrow>
                 m \<in> set (markers (onMapMove ev s))
                 \<and> markerToLocationId (onMapMove ev s) m = markerToLocationId s m
                 \<and> (\<forall>i. markerToLocationId s m = Some i \<and> i \<in> markerLocationIds s
                        \<and> (\<forall>m' \<in> set (markers s).
                              \<not> contains b m' \<longrightarrow> markerToLocationId s m' \<noteq> Some i)
                      \<longrightarrow> i \<in> markerLocationIds (onMapMove ev s))))
         \<and> (map_handle s = None \<or> (map_handle s = Some mp \<and> getBounds mp = None)
              \<longrightarrow> onMapMove ev s = s)"
proof -
  let ?rem = "filter (\<lambda>m. \<not> contains b m) (markers s)"
  have none: "onMapMove ev s = s"
    if "map_handle s = None \<or> (map_handle s = Some mp \<and> getBounds mp = None)"
    using that pan by (auto simp: onMapMove_def clearMarkers_def)
  have some: "markers (onMapMove ev s) = filter (contains b) (markers s)
           \<and> markerClusterGroup (onMapMove ev s)
               = map_option (filter (\<lambda>x. x \<notin> {m \<in> set (markers s). \<not> contains b m}))
                   (markerClusterGroup s)
           \<and> markersLayer (onMapMove ev s)
               = (if markerClusterGroup s = None
                    then map_option (filter (\<lambda>x. x \<notin> {m \<in> set (markers s). \<not> contains b m}))
                           (markersLayer s)
                  else markersLayer s)
           \<and> (\<forall>m \<in> set (markers s). contains b m \<longrightarrow>
                 m \<in> set (markers (onMapMove ev s))
                 \<and> markerToLocationId (onMapMove ev s) m = markerToLocationId s m
                 \<and> (\<forall>i. markerToLocationId s m = Some i \<and> i \<in> markerLocationIds s
                        \<and> (\<forall>m' \<in> set (markers s).
                              \<not> contains b m' \<longrightarrow> markerToLocationId s m' \<noteq> Some i)
                      \<longrightarrow> i \<in> markerLocationIds (onMapMove ev s)))"
    if mp: "map_handle s = Some mp" and b: "getBounds mp = Some b"
  proof -
    have r: "onMapMove ev s = fold removeMarker ?rem s"
      using pan mp b by (rule pan_result)
    have set_rem: "set ?rem = {m \<in> set (markers s). \<not> contains b m}"
      by auto
    have m1: "markers (onMapMove ev s) = filter (contains b) (markers s)"
      using fold_remove1_filter [of "[]" "contains b" "markers s"]
      by (simp add: r markers_fold_removeMarker)
    have m2: "markerClusterGroup (onMapMove ev s)
               = map_option (filter (\<lambda>x. x \<notin> {m \<in> set (markers s). \<not> contains b m}))
                   (markerClusterGroup s)"
      unfolding r cluster_fold_removeMarker set_rem ..
    have m3: "markersLayer (onMapMove ev s)
               = (if markerClusterGroup s = None
                    then map_option (filter (\<lambda>x. x \<notin> {m \<in> set (markers s). \<not> contains b m}))
                           (markersLayer s)
                  else markersLayer s)"
      unfolding r layer_fold_removeMarker set_rem ..
    have m4: "m \<in> set (markers (onMapMove ev s))
                 \<and> markerToLocationId (onMapMove ev s) m = markerToLocationId s m
                 \<and> (\<forall>i. markerToLocationId s m = Some i \<and> i \<in> markerLocationIds s
                        \<and> (\<forall>m' \<in> set (markers s).
                              \<not> contains b m' \<longrightarrow> markerToLocationId s m' \<noteq> Some i)
                      \<longrightarrow> i \<in> markerLocationIds (onMapMove ev s))"
      if "m \<in> set (markers s)" and "contains b m" for m
    proof -
      have a: "m \<in> set (markers (onMapMove ev s))"
        using that by (simp add: m1)
      have "m \<notin> set ?rem" using that by simp
      then have e: "markerToLocationId (onMapMove ev s) m = markerToLocationId s m"
        unfolding r by (rule entry_fold_removeMarker)
      have i: "i \<in> markerLocationIds (onMapMove ev s)"
        if "i \<in> markerLocationIds s"
          and "\<forall>m' \<in> set (markers s). \<not> contains b m' \<longrightarrow> markerToLocationId s m' \<noteq> Some i"
        for i
        unfolding r using that by (intro ids_fold_removeMarker) auto
      from a e i show ?thesis by blast
    qed
    from m1 m2 m3 m4 show ?thesis by blast
  qed
  from none some show ?thesis by blast
qed

theorem pan_keeps_markers_in_bounds_witness:
  "map (\<lambda>m. (marker_ref m, lat m)) (markers twoMarkers) = [(0, 40), (1, 60)]
   \<and> map (\<lambda>m. (marker_ref m, lat m))
       (markers (onMapMove (boundsEvent spainBounds False) twoMarkers)) = [(0, 40)]
   \<and> markerLocationIds twoMarkers = {''1'', ''2''}
   \<and> ''1'' \<in> markerLocationIds (onMapMove (boundsEvent spainBounds False) twoMarkers)"
proof -
  let ?mp = "\<lparr> getZoom = Fin 6, getBounds = Some spainBounds \<rparr>"
  have pan: "\<not> isZoomChange (boundsEvent spainBounds False)"
    by (simp add: boundsEvent_def)
  have h: "map_handle twoMarkers = Some ?mp \<and> getBounds ?mp = Some spainBounds"
    by code_simp
  have ms: "map (\<lambda>m. (marker_ref m, lat m, contains spainBounds m,
                      markerToLocationId twoMarkers m)) (markers twoMarkers)
            = [(0, 40, True, Some ''1''), (1, 60, False, Some ''2'')]"
    by code_simp
  have ids: "markerLocationIds twoMarkers = {''1'', ''2''}"
    by code_simp
  obtain m0 m1 where mm: "markers twoMarkers = [m0, m1]"
    and m0: "marker_ref m0 = 0" "lat m0 = 40" "contains spainBounds m0"
            "markerToLocationId twoMarkers m0 = Some ''1''"
    and m1: "marker_ref m1 = 1" "lat m1 = 60" "\<not> contains spainBounds m1"
            "markerToLocationId twoMarkers m1 = Some ''2''"
    using ms by (auto simp: map_eq_Cons_conv)
  from pan_keeps_markers_in_bounds [OF pan, of twoMarkers ?mp spainBounds] h
  have k: "markers (onMapMove (boundsEvent spainBounds False) twoMarkers)
             = filter (contains spainBounds) (markers twoMarkers)"
    and i: "\<forall>m \<in> set (markers twoMarkers). contains spainBounds m \<longrightarrow>
              (\<forall>i. markerToLocationId twoMarkers m = Some i \<and> i \<in> markerLocationIds twoMarkers
                   \<and> (\<forall>m' \<in> set (markers twoMarkers).
                         \<not> contains spainBounds m' \<longrightarrow> markerToLocationId twoMarkers m' \<noteq> Some i)
                 \<longrightarrow> i \<in> markerLocationIds (onMapMove (boundsEvent spainBounds False) twoMarkers))"
    by blast+
  have "''1'' \<in> markerLocationIds (onMapMove (boundsEvent spainBounds False) twoMarkers)"
    using i mm m0 m1 ids by auto
  then show ?thesis
    using k mm m0 m1 ids by simp
qed

lemma tracks_weatherService [simp]: "tracks ls (s\<lparr>weatherService := ws\<rparr>) = tracks ls s"
  by (simp add: tracks_def)

lemma tracks_moveSubscribed [simp]: "tracks ls (s\<lparr>moveSubscribed := b\<rparr>) = tracks ls s"
  by (simp add: tracks_def)











text \<open>
  C1 fails on the code: \<^verbatim>\<open>addMarkersForLocations\<close> looks the id up in
  \<^verbatim>\<open>markerLocationIds\<close> when it subscribes, but the id enters the set only when the
  weather arrives. A place added twice before its first reply arrives gets two requests
  and two markers.
\<close>

theorem duplicate_markers_for_one_place:
  "markerCount (weatherArrivals
      [(0, sampleClock, HttpReturns sampleResponse), (0, sampleClock, HttpReturns sampleResponse)]
      (addMarkersForLocations [placeAt ''1'' 40]
        (addMarkersForLocations [placeAt ''1'' 40] readyService))) ''1'' = 2
   \<and> map marker_ref (markers (weatherArrivals
      [(0, sampleClock, HttpReturns sampleResponse), (0, sampleClock, HttpReturns sampleResponse)]
      (addMarkersForLocations [placeAt ''1'' 40]
        (addMarkersForLocations [placeAt ''1'' 40] readyService)))) = [0, 1]
   \<and> map_option (map marker_ref) (markersLayer (weatherArrivals
      [(0, sampleClock, HttpReturns sampleResponse), (0, sampleClock, HttpReturns sampleResponse)]
      (addMarkersForLocations [placeAt ''1'' 40]
        (addMarkersForLocations [placeAt ''1'' 40] readyService)))) = Some [0, 1]
   \<and> map loc_id (waiting (addMarkersForLocations [placeAt ''1'' 40]
        (addMarkersForLocations [placeAt ''1'' 40] readyService))) = [''1'', ''1'']
   \<and> markerCount (weatherArrivals
      [(0, sampleClock, HttpReturns sampleResponse), (0, sampleClock, HttpReturns sampleResponse)]
      (addMarkersForLocations [placeAt ''1'' 40, placeAt ''1'' 40] readyService)) ''1'' = 2"
  by code_simp

section \<open>Further properties of the services\<close>

text \<open>
  At every zoom level the places \<^verbatim>\<open>fetchLocationsFromOverpass\<close> builds from the
  elements of a reply are in ascending order of rank, each of rank at most the zoom
  level (9 when the zoom level is falsy), and they are exactly the places of the
  elements that carry a place tag, a name and non-zero coordinates and pass that bound:
  none is lost or added by the sort.
\<close>

theorem allLocations_sorted_and_bounded:
  "sorted_wrt (\<lambda>a b. js_le (capital a) (capital b)) (allLocations zoom es)
   \<and> (\<forall>l \<in> set (allLocations zoom es). js_le (capital l) (js_or zoom (Fin 9)))
   \<and> set (allLocations zoom es)
       = {toLocation e | e. e \<in> set es \<and> str_truthy (tag_of tag_place e)
                            \<and> keepLocation zoom (toLocation e)}
   \<and> length (allLocations zoom es)
       = length (filter (\<lambda>e. str_truthy (tag_of tag_place e) \<and> keepLocation zoom (toLocation e)) es)"
proof -
  let ?kept = "filter (keepLocation zoom)
                 (map toLocation (filter (\<lambda>e. str_truthy (tag_of tag_place e)) es))"
  have "\<forall>y \<in> set ?kept. capital y \<noteq> NaN"
    by (auto dest: keepLocation_not_NaN)
  then have a: "sorted_wrt (\<lambda>a b. js_le (capital a) (capital b)) (allLocations zoom es)"
    unfolding allLocations_def by (rule sorted_js_sort)
  have b: "\<forall>l \<in> set (allLocations zoom es). js_le (capital l) (js_or zoom (Fin 9))"
    by (auto simp: set_allLocations keepLocation_def)
  have "length ?kept
        = length (filter (\<lambda>e. str_truthy (tag_of tag_place e) \<and> keepLocation zoom (toLocation e)) es)"
    by (induction es) auto
  then have c: "length (allLocations zoom es)
       = length (filter (\<lambda>e. str_truthy (tag_of tag_place e) \<and> keepLocation zoom (toLocation e)) es)"
    by (simp add: allLocations_def length_js_sort)
  from a b c set_allLocations [of zoom es] show ?thesis by blast
qed

theorem allLocations_sorted_and_bounded_witness:
  "map capital (allLocations (Fin 9)
      [rankedPlace 1 ''9'', untaggedPlace 2, rankedPlace 3 ''yes'', rankedPlace 4 ''12'',
       rankedPlace 5 ''4''])
   = [Fin 1, Fin 4, Fin 9]
   \<and> sorted_wrt (\<lambda>a b. js_le (capital a) (capital b)) (allLocations (Fin 9)
      [rankedPlace 1 ''9'', untaggedPlace 2, rankedPlace 3 ''yes'', rankedPlace 4 ''12'',
       rankedPlace 5 ''4''])"
proof -
  have "map capital (allLocations (Fin 9)
      [rankedPlace 1 ''9'', untaggedPlace 2, rankedPlace 3 ''yes'', rankedPlace 4 ''12'',
       rankedPlace 5 ''4''])
   = [Fin 1, Fin 4, Fin 9]"
    by code_simp
  with allLocations_sorted_and_bounded [of "Fin 9"
      "[rankedPlace 1 ''9'', untaggedPlace 2, rankedPlace 3 ''yes'', rankedPlace 4 ''12'',
        rankedPlace 5 ''4'']"]
  show ?thesis by blast
qed

text \<open>
  The \<^verbatim>\<open>zoomend\<close> listener stores the map's zoom level before it forwards its
  zoom-tagged event. When \<^verbatim>\<open>moveend\<close> fires after it for the same zoom, the
  \<^verbatim>\<open>moveend\<close> listener therefore finds the zoom level unchanged and forwards a
  pan-tagged event as well, behind the zoom-tagged one.
\<close>

theorem zoomend_then_moveend_forwards_both:
  assumes "map_handle s = Some mp" and "getBounds mp = Some b" and "getZoom mp \<noteq> NaN"
  shows "mapMoveSubject (onMoveEnd (onZoomEnd s))
           = mapMoveSubject s @ [boundsEvent b True, boundsEvent b False]
         \<and> currentZoomLevel (onMoveEnd (onZoomEnd s)) = getZoom mp"
  using assms by (simp add: onMoveEnd_def onZoomEnd_def js_strict_neq_def Let_def)

theorem zoomend_then_moveend_forwards_both_witness:
  "map isZoomChange (mapMoveSubject (onMoveEnd (onZoomEnd (readyService\<lparr>map_handle :=
       Some \<lparr> getZoom = Fin 7, getBounds = Some spainBounds \<rparr>\<rparr>)))) = [True, False]"
proof -
  have m: "map_handle (readyService\<lparr>map_handle :=
       Some \<lparr> getZoom = Fin 7, getBounds = Some spainBounds \<rparr>\<rparr>)
       = Some \<lparr> getZoom = Fin 7, getBounds = Some spainBounds \<rparr>"
    by simp
  have b: "getBounds \<lparr> getZoom = Fin 7, getBounds = Some spainBounds \<rparr> = Some spainBounds"
    and z: "getZoom \<lparr> getZoom = Fin 7, getBounds = Some spainBounds \<rparr> \<noteq> NaN"
    by simp_all
  from zoomend_then_moveend_forwards_both [OF m b z]
  show ?thesis by (simp add: readyService_def boundsEvent_def)
qed

text \<open>
  The forecast skips today and holds the next days of the daily arrays, at most
  five: its dates are the second to sixth entries of \<^verbatim>\<open>daily.time\<close>.
\<close>

theorem forecast_next_five_days:
  "map fc_date (mapOpenMeteoForecast response) = take 5 (tl (daily_time (daily response)))
   \<and> length (mapOpenMeteoForecast response) = min 5 (length (daily_time (daily response)) - 1)"
proof -
  let ?t = "daily_time (daily response)"
  have "map (\<lambda>i. ?t ! i) [1 ..< min 6 (length ?t)] = take 5 (tl ?t)"
  proof (rule nth_equalityI)
    show "length (map (\<lambda>i. ?t ! i) [1 ..< min 6 (length ?t)]) = length (take 5 (tl ?t))"
      by auto
  next
    fix i assume "i < length (map (\<lambda>i. ?t ! i) [1 ..< min 6 (length ?t)])"
    then have len: "i < length [1 ..< min 6 (length ?t)]"
      and i: "1 + i < min 6 (length ?t)" by auto
    from i have u: "[1 ..< min 6 (length ?t)] ! i = Suc i" using nth_upt [of 1 i] by simp
    have "map (\<lambda>i. ?t ! i) [1 ..< min 6 (length ?t)] ! i = ?t ! ([1 ..< min 6 (length ?t)] ! i)"
      using len by (rule nth_map)
    also have "\<dots> = ?t ! Suc i" by (simp only: u)
    also have "\<dots> = tl ?t ! i"
    proof -
      from i have "Suc i < length ?t" by simp
      then have "i < length ?t - 1" by arith
      then have "i < length (tl ?t)" by simp
      then show ?thesis by (simp only: nth_tl)
    qed
    also have "\<dots> = take 5 (tl ?t) ! i" using i by simp
    finally show "map (\<lambda>i. ?t ! i) [1 ..< min 6 (length ?t)] ! i = take 5 (tl ?t) ! i" .
  qed
  then have "map fc_date (mapOpenMeteoForecast response) = take 5 (tl ?t)"
    by (simp add: mapOpenMeteoForecast_def comp_def)
  moreover have "length (mapOpenMeteoForecast response) = min 5 (length ?t - 1)"
    by (auto simp: mapOpenMeteoForecast_def)
  ultimately show ?thesis by blast
qed

theorem forecast_next_five_days_witness:
  "map fc_date (mapOpenMeteoForecast sampleResponse) = [''2025-06-04'']
   \<and> length (mapOpenMeteoForecast sampleResponse) = 1"
  using forecast_next_five_days [of sampleResponse] by (simp add: sampleResponse_def)

text \<open>
  Outside a browser every entry point is inert: the weather call delivers
  \<^verbatim>\<open>null\<close> and the Overpass call the empty list without a request, and the loader
  returns \<^verbatim>\<open>null\<close> without an attempt, forced or not.
\<close>

theorem not_in_browser_inert:
  "(\<not> isBrowser ws \<longrightarrow> getWeatherForLocation clock outcome loc ws = (Inr None, ws))
   \<and> fetchLocationsFromOverpass False zoom reply = Inr []
   \<and> (\<not> platformBrowser s \<longrightarrow>
        loadLeaflet imp rt s = (None, rt, s)
        \<and> getLeaflet imp force rt s = (None, rt, s)
        \<and> ensureLeafletLoaded imp rt s = (None, rt, s))"
  by (simp add: getWeatherForLocation_def getWeatherForLocation_subscribe_def
      fetchLocationsFromOverpass_def loadLeaflet.simps getLeaflet_def ensureLeafletLoaded_def)

theorem not_in_browser_inert_witness:
  "getWeatherForLocation sampleClock (HttpReturns sampleResponse) (placeAt ''1'' 40)
      (newWeatherService\<lparr>isBrowser := False\<rparr>)
     = (Inr None, newWeatherService\<lparr>isBrowser := False\<rparr>)
   \<and> fst (getLeaflet (\<lambda>k. Imported 1 Callable Callable) True newRuntime
            (readyService\<lparr>platformBrowser := False\<rparr>)) = None
   \<and> attempts_started (fst (snd (getLeaflet (\<lambda>k. Imported 1 Callable Callable) True newRuntime
            (readyService\<lparr>platformBrowser := False\<rparr>)))) = []"
proof -
  have a: "\<not> isBrowser (newWeatherService\<lparr>isBrowser := False\<rparr>)"
    and b: "\<not> platformBrowser (readyService\<lparr>platformBrowser := False\<rparr>)"
    by simp_all
  from not_in_browser_inert [of "newWeatherService\<lparr>isBrowser := False\<rparr>" sampleClock
      "HttpReturns sampleResponse" "placeAt ''1'' 40" "Fin 6" "Body None"
      "readyService\<lparr>platformBrowser := False\<rparr>" "\<lambda>k. Imported 1 Callable Callable"
      newRuntime True] a b
  show ?thesis by (simp add: newRuntime_def)
qed

end
